theory Spec2Isabelle
  imports Complex_Main
begin

section \<open>JavaScript values\<close>

text \<open>
  A JavaScript Number is modelled as not-a-number, one of the two infinities, or a finite
  real; the two zeros are identified (a zero divisor counts as \<open>+0\<close>). The functions
  \<open>jadd\<close>, \<open>jsub\<close>, \<open>jmul\<close> and \<open>jdiv\<close> give the exact result of an operation; the
  operators of the language, \<open>fadd\<close>, \<open>fsub\<close>, \<open>fmul\<close> and \<open>fdiv\<close> below, round it.
\<close>

datatype jsnum = NaN | NInf | Fin real | PInf

fun jneg :: "jsnum \<Rightarrow> jsnum" where
  "jneg NaN = NaN"
| "jneg NInf = PInf"
| "jneg (Fin a) = Fin (- a)"
| "jneg PInf = NInf"

text \<open>The exact sum.\<close>

fun jadd :: "jsnum \<Rightarrow> jsnum \<Rightarrow> jsnum" where
  "jadd NaN b = NaN"
| "jadd a NaN = NaN"
| "jadd (Fin a) (Fin b) = Fin (a + b)"
| "jadd PInf NInf = NaN"
| "jadd NInf PInf = NaN"
| "jadd PInf b = PInf"
| "jadd a PInf = PInf"
| "jadd NInf b = NInf"
| "jadd a NInf = NInf"

text \<open>The exact difference.\<close>

definition jsub :: "jsnum \<Rightarrow> jsnum \<Rightarrow> jsnum" where
  "jsub a b = jadd a (jneg b)"

text \<open>The exact product.\<close>

fun jmul :: "jsnum \<Rightarrow> jsnum \<Rightarrow> jsnum" where
  "jmul NaN b = NaN"
| "jmul a NaN = NaN"
| "jmul (Fin a) (Fin b) = Fin (a * b)"
| "jmul (Fin a) PInf = (if a = 0 then NaN else if 0 < a then PInf else NInf)"
| "jmul (Fin a) NInf = (if a = 0 then NaN else if 0 < a then NInf else PInf)"
| "jmul PInf (Fin b) = (if b = 0 then NaN else if 0 < b then PInf else NInf)"
| "jmul NInf (Fin b) = (if b = 0 then NaN else if 0 < b then NInf else PInf)"
| "jmul PInf PInf = PInf"
| "jmul PInf NInf = NInf"
| "jmul NInf PInf = NInf"
| "jmul NInf NInf = PInf"

text \<open>The exact quotient.\<close>

fun jdiv :: "jsnum \<Rightarrow> jsnum \<Rightarrow> jsnum" where
  "jdiv NaN b = NaN"
| "jdiv a NaN = NaN"
| "jdiv (Fin a) (Fin b) =
     (if b \<noteq> 0 then Fin (a / b)
      else if a = 0 then NaN else if 0 < a then PInf else NInf)"
| "jdiv (Fin a) PInf = Fin 0"
| "jdiv (Fin a) NInf = Fin 0"
| "jdiv PInf (Fin b) = (if 0 \<le> b then PInf else NInf)"
| "jdiv NInf (Fin b) = (if 0 \<le> b then NInf else PInf)"
| "jdiv a b = NaN"

text \<open>
  The language computes on doubles: the finite result of an operation is the double nearest
  to the exact result, or an infinity when that is out of range. This rounding of a real to
  a Number is the parameter \<open>rd\<close> of every function that computes; \<open>rnd rd\<close> applies it to
  a result.
\<close>

fun rnd :: "(real \<Rightarrow> jsnum) \<Rightarrow> jsnum \<Rightarrow> jsnum" where
  "rnd rd (Fin a) = rd a"
| "rnd rd a = a"

text \<open>\<open>a + b\<close>\<close>

definition fadd :: "(real \<Rightarrow> jsnum) \<Rightarrow> jsnum \<Rightarrow> jsnum \<Rightarrow> jsnum" where
  "fadd rd a b = rnd rd (jadd a b)"

text \<open>\<open>a - b\<close>\<close>

definition fsub :: "(real \<Rightarrow> jsnum) \<Rightarrow> jsnum \<Rightarrow> jsnum \<Rightarrow> jsnum" where
  "fsub rd a b = rnd rd (jsub a b)"

text \<open>\<open>a * b\<close>\<close>

definition fmul :: "(real \<Rightarrow> jsnum) \<Rightarrow> jsnum \<Rightarrow> jsnum \<Rightarrow> jsnum" where
  "fmul rd a b = rnd rd (jmul a b)"

text \<open>\<open>a / b\<close>\<close>

definition fdiv :: "(real \<Rightarrow> jsnum) \<Rightarrow> jsnum \<Rightarrow> jsnum \<Rightarrow> jsnum" where
  "fdiv rd a b = rnd rd (jdiv a b)"

text \<open>
  Two properties of the rounding to the nearest double, for the theorems that need them:
  an integer of magnitude up to \<open>2^53\<close> is a double, and a real whose magnitude lies
  between the least and the greatest power of two of the normal doubles is moved by at
  most the fraction \<open>2^-53\<close> of itself.
\<close>

definition double_rounding :: "(real \<Rightarrow> jsnum) \<Rightarrow> bool" where
  "double_rounding rd =
     ((\<forall>n::int. \<bar>n\<bar> \<le> 2 ^ 53 \<longrightarrow> rd (of_int n) = Fin (of_int n)) \<and>
      (\<forall>x. 1 / 2 ^ 1022 \<le> \<bar>x\<bar> \<and> \<bar>x\<bar> \<le> 2 ^ 1023 \<longrightarrow>
           (\<exists>y. rd x = Fin y \<and> \<bar>y - x\<bar> \<le> \<bar>x\<bar> / 2 ^ 53)))"

text \<open>\<open>a < b\<close>; every comparison with not-a-number is false.\<close>

fun jless :: "jsnum \<Rightarrow> jsnum \<Rightarrow> bool" where
  "jless NaN b = False"
| "jless a NaN = False"
| "jless (Fin a) (Fin b) = (a < b)"
| "jless a NInf = False"
| "jless PInf b = False"
| "jless NInf b = True"
| "jless a PInf = True"

text \<open>\<open>a > b\<close>\<close>

definition jgreater :: "jsnum \<Rightarrow> jsnum \<Rightarrow> bool" where
  "jgreater a b = jless b a"

text \<open>The global \<open>isNaN\<close> on a Number.\<close>

definition isNaN :: "jsnum \<Rightarrow> bool" where
  "isNaN a = (a = NaN)"

text \<open>\<open>Math.min\<close> and \<open>Math.max\<close> of two arguments: not-a-number if either is.\<close>

definition Math_min :: "jsnum \<Rightarrow> jsnum \<Rightarrow> jsnum" where
  "Math_min a b = (if isNaN a \<or> isNaN b then NaN else if jless b a then b else a)"

definition Math_max :: "jsnum \<Rightarrow> jsnum \<Rightarrow> jsnum" where
  "Math_max a b = (if isNaN a \<or> isNaN b then NaN else if jless a b then b else a)"

text \<open>
  \<open>Math.round\<close>: the nearest integer, a tie going up (\<open>\<lfloor>x + 1/2\<rfloor>\<close>); the result is the
  exact one.
\<close>

fun Math_round :: "jsnum \<Rightarrow> jsnum" where
  "Math_round (Fin a) = Fin (of_int (round a))"
| "Math_round a = a"

text \<open>
  The values that reach the modelled code: \<open>undefined\<close>, \<open>null\<close>, booleans, Numbers and
  strings (objects, symbols and big integers do not occur in the documented parameter
  types).
\<close>

datatype jsval = JUndef | JNull | JBool bool | JNum jsnum | JStr string

text \<open>
  \<open>Number(v)\<close>. The conversion of a string to a Number is the language's own
  (StringToNumber); it is the parameter \<open>sn\<close> of every function that converts.
\<close>

fun Number :: "(string \<Rightarrow> jsnum) \<Rightarrow> jsval \<Rightarrow> jsnum" where
  "Number sn JUndef = NaN"
| "Number sn JNull = Fin 0"
| "Number sn (JBool b) = Fin (if b then 1 else 0)"
| "Number sn (JNum n) = n"
| "Number sn (JStr s) = sn s"

section \<open>core/Util.js: measure and size\<close>

text \<open>
  \<open>vizuly2.core.util.measure(m0, m1)\<close>. For a string \<open>s\<close>, \<open>s.substr(s.length - 1)\<close> is its
  last character (the empty string when \<open>s\<close> is empty) and \<open>s.substr(0, s.length - 1)\<close> is
  \<open>s\<close> without it.
\<close>

definition util_measure ::
  "(real \<Rightarrow> jsnum) \<Rightarrow> (string \<Rightarrow> jsnum) \<Rightarrow> jsval \<Rightarrow> jsnum \<Rightarrow> jsnum" where
  "util_measure rd sn m0 m1 =
     (case m0 of
        JStr s \<Rightarrow>
          if s \<noteq> [] \<and> last s = CHR ''%'' then
            (let r = fdiv rd (Math_min (sn (butlast s)) (Fin 100)) (Fin 100)
             in Math_round (fmul rd m1 r))
          else Number sn m0
      | _ \<Rightarrow> Number sn m0)"

record margin =
  m_top :: jsval
  m_bottom :: jsval
  m_left :: jsval
  m_right :: jsval

record size_box =
  s_width :: jsnum
  s_height :: jsnum
  s_top :: jsnum
  s_left :: jsnum
  s_bottom :: jsnum
  s_right :: jsnum

text \<open>\<open>vizuly2.core.util.size(margin, width, height)\<close>\<close>

definition util_size ::
  "(real \<Rightarrow> jsnum) \<Rightarrow> (string \<Rightarrow> jsnum) \<Rightarrow> margin \<Rightarrow> jsnum \<Rightarrow> jsnum \<Rightarrow> size_box" where
  "util_size rd sn mg w h =
     \<lparr> s_width = fsub rd (fsub rd w (util_measure rd sn (m_left mg) w))
                   (util_measure rd sn (m_right mg) w),
       s_height = fsub rd (fsub rd h (util_measure rd sn (m_top mg) h))
                    (util_measure rd sn (m_bottom mg) h),
       s_top = util_measure rd sn (m_top mg) h,
       s_left = util_measure rd sn (m_left mg) w,
       s_bottom = util_measure rd sn (m_bottom mg) h,
       s_right = util_measure rd sn (m_right mg) w \<rparr>"

text \<open>The test \<open>typeof m0 == 'string' && m0.substr(m0.length - 1) == '%'\<close> of measure.\<close>

definition is_percent :: "jsval \<Rightarrow> bool" where
  "is_percent m0 = (case m0 of JStr s \<Rightarrow> s \<noteq> [] \<and> last s = CHR ''%'' | _ \<Rightarrow> False)"

section \<open>viz/WeightedTree.js: the layout hierarchy, collapse and toggleNode\<close>

text \<open>
  The input data: a datum and what the \<open>children\<close> accessor returns for it (\<open>None\<close> for
  \<open>undefined\<close> or \<open>null\<close>, otherwise the array).
\<close>

datatype 'a inode = INode (idata: 'a) (ichildren: "'a inode list option")

text \<open>
  A node of the layout hierarchy (the LayoutNode of the specification): its datum, its field
  \<open>children\<close> and its field \<open>_children\<close> (here \<open>collapsedChildren\<close>). A field that is
  \<open>undefined\<close> or \<open>null\<close> is \<open>None\<close>; an array, which is truthy even when empty, is \<open>Some\<close>.
  The depth of a node and its \<open>parent\<close> are given by its position in the tree.
\<close>

datatype 'a lnode =
  LNode (ndata: 'a) (children: "'a lnode list option") (collapsedChildren: "'a lnode list option")

text \<open>
  Modelled from the spec: \<open>d3.hierarchy(root, scope.children)\<close>, the constructor of the
  library (whose source is not in the repository), which builds the rooted hierarchy by
  applying the accessor recursively: a node per datum, with \<open>children\<close> set only where the
  accessor returns a non-empty array, and no \<open>_children\<close>.
\<close>

fun hierarchy :: "'a inode \<Rightarrow> 'a lnode" where
  "hierarchy (INode a None) = LNode a None None"
| "hierarchy (INode a (Some [])) = LNode a None None"
| "hierarchy (INode a (Some (c # cs))) = LNode a (Some (map hierarchy (c # cs))) None"

text \<open>The function \<open>collapse\<close> local to \<open>measure\<close>.\<close>

fun collapse :: "'a lnode \<Rightarrow> 'a lnode" where
  "collapse (LNode a None h) = LNode a None h"
| "collapse (LNode a (Some cs) h) = LNode a None (Some (map collapse cs))"


text \<open>Every node of the hierarchy, the ones held in \<open>_children\<close> too.\<close>

fun all_nodes :: "'a lnode \<Rightarrow> 'a lnode list" where
  "all_nodes (LNode a c h) =
     LNode a c h #
     concat (map all_nodes (case c of None \<Rightarrow> [] | Some cs \<Rightarrow> cs)) @
     concat (map all_nodes (case h of None \<Rightarrow> [] | Some hs \<Rightarrow> hs))"

text \<open>
  A node \<open>d\<close> is addressed by its path from the root: the indices of the child to take at
  each node, in \<open>children\<close> or, when that is unset, in \<open>_children\<close>. \<open>d.parent\<close> is the node
  at the path without its last index; the root, at the empty path, has none.
\<close>

definition kids :: "'a lnode \<Rightarrow> 'a lnode list" where
  "kids n =
     (case children n of
        Some cs \<Rightarrow> cs
      | None \<Rightarrow> (case collapsedChildren n of Some hs \<Rightarrow> hs | None \<Rightarrow> []))"

fun node_at :: "'a lnode \<Rightarrow> nat list \<Rightarrow> 'a lnode option" where
  "node_at n [] = Some n"
| "node_at n (i # p) = (if i < length (kids n) then node_at (kids n ! i) p else None)"

fun modify_at :: "nat list \<Rightarrow> ('a lnode \<Rightarrow> 'a lnode) \<Rightarrow> 'a lnode \<Rightarrow> 'a lnode" where
  "modify_at [] f n = f n"
| "modify_at (i # p) f (LNode a (Some cs) h) =
     LNode a (Some (cs[i := modify_at p f (cs ! i)])) h"
| "modify_at (i # p) f (LNode a None (Some hs)) =
     LNode a None (Some (hs[i := modify_at p f (hs ! i)]))"
| "modify_at (i # p) f (LNode a None None) = LNode a None None"

text \<open>The calls \<open>toggleNode\<close> makes, with their arguments.\<close>

datatype call = UpdateNode "nat list" jsval | ZoomToNode "nat list"

text \<open>The two assignments of \<open>toggleNode(d)\<close> to the fields of \<open>d\<close>.\<close>

definition toggle_fields :: "'a lnode \<Rightarrow> 'a lnode" where
  "toggle_fields d =
     (case children d of
        Some cs \<Rightarrow> LNode (ndata d) None (Some cs)
      | None \<Rightarrow> LNode (ndata d) (collapsedChildren d) None)"

text \<open>
  \<open>toggleNode(d)\<close> on the hierarchy \<open>h\<close>, \<open>d\<close> being the node at path \<open>p\<close>: the hierarchy
  after the assignments and the calls made, in order. \<open>None\<close> when \<open>p\<close> is the path of no
  node.
\<close>

definition toggleNode :: "'a lnode \<Rightarrow> nat list \<Rightarrow> ('a lnode \<times> call list) option" where
  "toggleNode h p =
     (case node_at h p of
        None \<Rightarrow> None
      | Some d \<Rightarrow>
          Some (modify_at p toggle_fields h,
            (if children d \<noteq> None then
               UpdateNode p (JNum (Fin 0)) # (if p \<noteq> [] then [ZoomToNode (butlast p)] else [])
             else
               UpdateNode p (JNum (Fin 0)) #
                 (if children (toggle_fields d) \<noteq> None then [ZoomToNode p] else []))))"

text \<open>A sequence of \<open>toggleNode\<close> calls; a path of no node is skipped.\<close>

fun toggles :: "'a lnode \<Rightarrow> nat list list \<Rightarrow> 'a lnode" where
  "toggles h [] = h"
| "toggles h (p # ps) =
     toggles (case toggleNode h p of None \<Rightarrow> h | Some (h', cs) \<Rightarrow> h') ps"

text \<open>The truth value of a JavaScript value in a condition.\<close>

fun truthy :: "jsval \<Rightarrow> bool" where
  "truthy JUndef = False"
| "truthy JNull = False"
| "truthy (JBool b) = b"
| "truthy (JNum n) = (n \<noteq> NaN \<and> n \<noteq> Fin 0)"
| "truthy (JStr s) = (s \<noteq> [])"

text \<open>
  The first statement of \<open>updateNode(rootNode, duration)\<close>,
  \<open>if (!duration) duration = scope.duration\<close>: the duration every transition of the render
  pass is given. An argument left out is \<open>undefined\<close>.
\<close>

definition updateNode_duration :: "jsval \<Rightarrow> jsval \<Rightarrow> jsval" where
  "updateNode_duration scope_duration duration =
     (if \<not> truthy duration then scope_duration else duration)"

text \<open>The durations used by the render passes among a list of calls.\<close>

fun render_durations :: "jsval \<Rightarrow> call list \<Rightarrow> jsval list" where
  "render_durations sd [] = []"
| "render_durations sd (UpdateNode p d # cs) = updateNode_duration sd d # render_durations sd cs"
| "render_durations sd (ZoomToNode p # cs) = render_durations sd cs"

text \<open>Whether a field holds a non-empty array.\<close>

definition nonempty :: "'a list option \<Rightarrow> bool" where
  "nonempty f = (case f of None \<Rightarrow> False | Some xs \<Rightarrow> xs \<noteq> [])"

text \<open>
  The state of the two fields of one node: both unset (a leaf), \<open>children\<close> non-empty and
  \<open>_children\<close> unset (expanded), or \<open>children\<close> unset and \<open>_children\<close> non-empty (collapsed).
\<close>

definition fields_ok :: "'a lnode \<Rightarrow> bool" where
  "fields_ok n =
     (children n = None \<and> collapsedChildren n = None \<or>
      nonempty (children n) \<and> collapsedChildren n = None \<or>
      children n = None \<and> nonempty (collapsedChildren n))"

text \<open>Exactly one of the two fields of a node holds a non-empty array.\<close>

definition exactly_one :: "'a lnode \<Rightarrow> bool" where
  "exactly_one n = (nonempty (children n) \<noteq> nonempty (collapsedChildren n))"

section \<open>viz/WeightedTree.js: measure, nodeRadius and updateTreeSize\<close>

text \<open>
  The properties of the component that the modelled functions read. \<open>sc_value\<close> is the
  accessor \<open>scope.value\<close>, taken to return a Number (not-a-number for a datum without a
  numeric value).
\<close>

record 'a scope =
  sc_margin :: margin
  sc_width :: jsnum
  sc_height :: jsnum
  sc_value :: "'a \<Rightarrow> jsnum"
  maxNodeRadius :: jsnum
  horizontalPadding :: jsnum
  verticalPadding :: jsnum
  useZoom :: bool

text \<open>
  The variables of the component's closure: the two flags, \<open>size\<close>, \<open>hieararchy\<close>, \<open>nodes\<close>
  (the depth and the datum of each), \<open>maxDepth\<close>, \<open>maxValues\<close> and \<open>minValues\<close> (a depth
  without an entry reads \<open>undefined\<close>, which every use converts to not-a-number),
  \<open>tree.nodeSize()[0]\<close>, \<open>nodeScale.range()\<close>, \<open>depthSpan\<close>, \<open>cx\<close> and \<open>cy\<close>.
\<close>

record 'a vstate =
  dataIsDirty :: bool
  refreshNeeded :: bool
  vsize :: size_box
  hieararchy :: "'a lnode option"
  nodes :: "(nat \<times> 'a) list"
  maxDepth :: nat
  maxValues :: "nat \<Rightarrow> jsnum"
  minValues :: "nat \<Rightarrow> jsnum"
  nodeSize0 :: jsnum
  nodeScale_range :: "jsnum \<times> jsnum"
  depthSpan :: jsnum
  cx :: jsnum
  cy :: jsnum

datatype error = TypeError

text \<open>The depth and the datum of every active node below and including a node at depth \<open>k\<close>.\<close>

fun node_depths :: "nat \<Rightarrow> 'a lnode \<Rightarrow> (nat \<times> 'a) list" where
  "node_depths k (LNode a None h) = [(k, a)]"
| "node_depths k (LNode a (Some cs) h) = (k, a) # concat (map (node_depths (Suc k)) cs)"

text \<open>
  Modelled from the spec: \<open>d3.max\<close> and \<open>d3.min\<close> of the library, the maximum and the
  minimum of the values at a depth, on Numbers: values that are not-a-number are skipped,
  and the result is \<open>undefined\<close> (here not-a-number) when nothing is left.
\<close>

fun d3_max :: "jsnum list \<Rightarrow> jsnum" where
  "d3_max [] = NaN"
| "d3_max (v # vs) =
     (if isNaN v then d3_max vs else fold (\<lambda>w m. if jless m w then w else m) vs v)"

fun d3_min :: "jsnum list \<Rightarrow> jsnum" where
  "d3_min [] = NaN"
| "d3_min (v # vs) =
     (if isNaN v then d3_min vs else fold (\<lambda>w m. if jless w m then w else m) vs v)"

text \<open>The body of the loop over the nodes in \<open>refreshData\<close>.\<close>

definition refresh_step ::
  "nat \<times> 'a \<Rightarrow> (nat \<Rightarrow> jsnum) \<times> (nat \<Rightarrow> jsnum) \<times> nat \<Rightarrow> (nat \<Rightarrow> jsnum) \<times> (nat \<Rightarrow> jsnum) \<times> nat" where
  "refresh_step node acc =
     (case acc of (mx, mn, md) \<Rightarrow>
        if fst node = 0 then (mx, mn, md)
        else if \<not> truthy (JNum (mx (fst node)))
          then (mx(fst node := NInf), mn(fst node := PInf), max md (fst node))
          else (mx, mn, max md (fst node)))"

text \<open>
  \<open>refreshData\<close>. The hierarchy is rebuilt from the data with every node expanded, so its
  descendants are all its nodes. (The function also copies positions onto the input data,
  which nothing modelled here reads.)
\<close>

definition refreshData :: "'a inode \<Rightarrow> 'a vstate \<Rightarrow> 'a vstate" where
  "refreshData dat st =
     (let h = hierarchy dat;
          ns = node_depths 0 h
      in case fold refresh_step ns (maxValues st, minValues st, 0) of
           (mx, mn, md) \<Rightarrow>
             st \<lparr> hieararchy := Some h, nodes := ns, maxValues := mx, minValues := mn,
                  maxDepth := md \<rparr>)"

text \<open>
  The block of \<open>measure\<close> guarded by \<open>dataIsDirty == true || refreshNeeded\<close>.
  \<open>hieararchy.children.forEach(collapse)\<close> raises a TypeError when the root has no
  \<open>children\<close> array.
\<close>

definition measure_refresh :: "'a inode \<Rightarrow> 'a vstate \<Rightarrow> error + 'a vstate" where
  "measure_refresh dat st =
     (if dataIsDirty st \<or> refreshNeeded st then
        (let st1 = refreshData dat st in
         if dataIsDirty st1 then
           (case hieararchy st1 of
              None \<Rightarrow> Inl TypeError
            | Some h \<Rightarrow>
                (case children h of
                   None \<Rightarrow> Inl TypeError
                 | Some cs \<Rightarrow>
                     Inr (st1 \<lparr> hieararchy :=
                                  Some (LNode (ndata h) (Some (map collapse cs)) (collapsedChildren h)),
                                dataIsDirty := False, refreshNeeded := False \<rparr>)))
         else Inr (st1 \<lparr> dataIsDirty := False, refreshNeeded := False \<rparr>))
      else Inr st)"

text \<open>
  The local \<open>scale\<close> of \<open>measure\<close>; \<open>scope.children(scope.data).length\<close> raises a TypeError
  when the accessor returns no array.
\<close>

definition measure_scale ::
  "(real \<Rightarrow> jsnum) \<Rightarrow> 'a scope \<Rightarrow> 'a inode \<Rightarrow> 'a vstate \<Rightarrow> error + jsnum" where
  "measure_scale rd sc dat st =
     (if maxNodeRadius sc = Fin (- 1) then
        (case ichildren dat of
           None \<Rightarrow> Inl TypeError
         | Some cs \<Rightarrow> Inr (fdiv rd (s_height (vsize st)) (Fin (real (length cs)))))
      else Inr (maxNodeRadius sc))"

text \<open>The values of the nodes at depth \<open>i\<close>.\<close>

definition depth_values :: "'a scope \<Rightarrow> (nat \<times> 'a) list \<Rightarrow> nat \<Rightarrow> jsnum list" where
  "depth_values sc ns i = map (\<lambda>n. sc_value sc (snd n)) (filter (\<lambda>n. fst n = i) ns)"

text \<open>
  \<open>measure\<close> (\<open>viz.validate\<close> and the dispatch of the \<open>measure\<close> event are the framework's).
\<close>

definition viz_measure ::
  "(real \<Rightarrow> jsnum) \<Rightarrow> (string \<Rightarrow> jsnum) \<Rightarrow> 'a scope \<Rightarrow> 'a inode \<Rightarrow> 'a vstate \<Rightarrow>
     error + 'a vstate" where
  "viz_measure rd sn sc dat st0 =
     (case measure_refresh dat
             (st0 \<lparr> vsize := util_size rd sn (sc_margin sc) (sc_width sc) (sc_height sc) \<rparr>) of
        Inl e \<Rightarrow> Inl e
      | Inr st \<Rightarrow>
          (case measure_scale rd sc dat st of
             Inl e \<Rightarrow> Inl e
           | Inr scale \<Rightarrow>
               Inr (st \<lparr>
                 nodeSize0 :=
                   (if verticalPadding sc = Fin (- 1) then scale else verticalPadding sc),
                 nodeScale_range := (Fin (3 / 2), fdiv rd scale (Fin 2)),
                 depthSpan :=
                   (if jgreater (horizontalPadding sc) (Fin 0) then horizontalPadding sc
                    else fdiv rd (s_width (vsize st)) (Fin (real (maxDepth st + 1)))),
                 maxValues :=
                   fold (\<lambda>i m. m(i := d3_max (depth_values sc (nodes st) i)))
                     [1 ..< maxDepth st + 1] (maxValues st),
                 minValues :=
                   fold (\<lambda>i m. m(i := d3_min (depth_values sc (nodes st) i)))
                     [1 ..< maxDepth st + 1] (minValues st),
                 cx := s_left (vsize st),
                 cy := fadd rd (s_top (vsize st)) (fdiv rd (s_height (vsize st)) (Fin 2)) \<rparr>)))"

text \<open>
  The transform of the library's square-root scale: the square root, of the absolute value
  with the sign kept for a negative number.
\<close>

fun jsqrt :: "jsnum \<Rightarrow> jsnum" where
  "jsqrt (Fin a) = Fin (sqrt a)"
| "jsqrt a = a"

text \<open>
  Modelled from the spec: \<open>d3.scaleSqrt()\<close>, the library's square-root scale (no source of
  the library is in the repository), with the domain \<open>[d0, d1]\<close> and the range \<open>[r0, r1]\<close>,
  unclamped: the value is taken to its place \<open>t\<close> between the square roots of the domain's
  ends, and \<open>t\<close> to \<open>r0 + (r1 - r0) * t\<close>. Where the two ends of the domain have the same
  square root the library takes every value to one fixed \<open>t\<close> (0 or 1/2, by its version);
  this is the parameter \<open>t0\<close>. The scale is the mathematical one, on exact reals: how the
  library rounds on the way is not in the spec.
\<close>

definition scaleSqrt :: "real \<Rightarrow> jsnum \<times> jsnum \<Rightarrow> jsnum \<times> jsnum \<Rightarrow> jsnum \<Rightarrow> jsnum" where
  "scaleSqrt t0 dm rg v =
     (let a = jsqrt (fst dm);
          b = jsub (jsqrt (snd dm)) a;
          t = (if b = NaN then NaN
               else if b = Fin 0 then Fin t0
               else jdiv (jsub (jsqrt v) a) b)
      in jadd (fst rg) (jmul (jsub (snd rg) (fst rg)) t))"

text \<open>
  \<open>nodeRadius(node)\<close>, for a node of depth \<open>depth\<close> whose \<open>data\<close> is \<open>dat\<close> (\<open>None\<close> when the
  node has none).
\<close>

definition nodeRadius ::
  "(real \<Rightarrow> jsnum) \<Rightarrow> real \<Rightarrow> 'a scope \<Rightarrow> 'a vstate \<Rightarrow> nat \<Rightarrow> 'a option \<Rightarrow> jsnum" where
  "nodeRadius rd t0 sc st depth dat =
     (let r = (case dat of
                 None \<Rightarrow> fdiv rd (snd (nodeScale_range st)) (Fin 2)
               | Some a \<Rightarrow>
                   if depth = 0 then fdiv rd (snd (nodeScale_range st)) (Fin 2)
                   else scaleSqrt t0 (minValues st depth, maxValues st depth)
                          (nodeScale_range st) (sc_value sc a))
      in if isNaN r then Fin 0 else r)"

text \<open>
  A node as the tree layout of the library hands it to \<open>updateTreeSize\<close>: its depth, its
  datum, its position \<open>x\<close>, \<open>y\<close> and its radius \<open>r\<close>.
\<close>

record 'a pnode =
  pdepth :: nat
  pdata :: "'a option"
  px :: jsnum
  py :: jsnum
  pr :: jsnum

text \<open>
  \<open>updateTreeSize(rootNode, nodes)\<close>, with \<open>k\<close> the scale of the current zoom transform:
  the nodes as the function leaves them, and the height and width it gives the svg element.
  The literal \<open>.2\<close> is the double nearest to 2/10. (The scrolling the function starts is not
  modelled.)
\<close>

definition updateTreeSize ::
  "(real \<Rightarrow> jsnum) \<Rightarrow> real \<Rightarrow> 'a scope \<Rightarrow> 'a vstate \<Rightarrow> jsnum \<Rightarrow> 'a pnode list \<Rightarrow>
     'a pnode list \<times> jsnum \<times> jsnum" where
  "updateTreeSize rd t0 sc st k ns =
     (let ns1 = map (\<lambda>d. d \<lparr> pr := nodeRadius rd t0 sc st (pdepth d) (pdata d) \<rparr>) ns;
          maxX0 = fold (\<lambda>d m. Math_max (px d) m) ns NInf;
          maxY0 = fold (\<lambda>d m. Math_max (py d) m) ns NInf;
          minX = fold (\<lambda>d m. Math_min (px d) m) ns PInf;
          minY0 = fold (\<lambda>d m. Math_min (py d) m) ns PInf;
          minY = (if useZoom sc then fmul rd minY0 k else minY0);
          maxY = (if useZoom sc then fmul rd maxY0 k else maxY0);
          maxX = (if useZoom sc then fmul rd maxX0 k else maxX0);
          h0 = Math_max (sc_height sc) (fadd rd (fsub rd maxX minX) (s_top (vsize st)));
          w = Math_max (sc_width sc)
                (fadd rd (fadd rd maxY (fmul rd (sc_width sc) (rd (2 / 10)))) (s_left (vsize st)));
          h = (if jgreater (fadd rd (fdiv rd (s_height (vsize st)) (Fin 2)) maxY) h0
               then fadd rd (fadd rd (fdiv rd (s_height (vsize st)) (Fin 2)) maxY) (nodeSize0 st)
               else h0);
          offsetY = fadd rd
                      (Math_max (Fin 0)
                         (fsub rd (jneg minY) (fdiv rd (s_height (vsize st)) (Fin 2))))
                      (fdiv rd (nodeSize0 st) (Fin 2))
      in (map (\<lambda>d. d \<lparr> py := fadd rd (fmul rd (Fin (real (pdepth d))) (depthSpan st)) (cx st),
                       px := fsub rd (fadd rd (fadd rd (px d) offsetY) (cy st)) (nodeSize0 st) \<rparr>)
            ns1,
          h, w))"

text \<open>
  The properties of a new component, as the component's property table gives their
  defaults, for a given value accessor.
\<close>

definition default_scope :: "('a \<Rightarrow> jsnum) \<Rightarrow> 'a scope" where
  "default_scope v =
     \<lparr> sc_margin = \<lparr> m_top = JStr ''5%'', m_bottom = JStr ''5%'', m_left = JStr ''8%'',
                      m_right = JStr ''7%'' \<rparr>,
       sc_width = Fin 600, sc_height = Fin 600, sc_value = v,
       maxNodeRadius = Fin (- 1), horizontalPadding = Fin (- 1), verticalPadding = Fin (- 1),
       useZoom = True \<rparr>"

text \<open>
  The closure variables of a new component: the data is dirty, no refresh is asked for,
  \<open>maxValues\<close> and \<open>minValues\<close> are empty, the range of \<open>nodeScale\<close> is the library's
  default and everything else is yet \<open>undefined\<close> (not-a-number where it is a Number).
\<close>

definition new_component :: "'a vstate" where
  "new_component =
     \<lparr> dataIsDirty = True, refreshNeeded = False,
       vsize = \<lparr> s_width = NaN, s_height = NaN, s_top = NaN, s_left = NaN, s_bottom = NaN,
                 s_right = NaN \<rparr>,
       hieararchy = None, nodes = [], maxDepth = 0,
       maxValues = (\<lambda>i. NaN), minValues = (\<lambda>i. NaN),
       nodeSize0 = NaN, nodeScale_range = (Fin 0, Fin 1), depthSpan = NaN, cx = NaN, cy = NaN \<rparr>"

text \<open>
  The language's conversion of strings to Numbers, on the strings that occur in the examples
  below; it stands for \<open>sn\<close> there.
\<close>

definition example_sn :: "string \<Rightarrow> jsnum" where
  "example_sn s =
     (if s = ''5'' then Fin 5 else if s = ''7'' then Fin 7 else if s = ''8'' then Fin 8
      else if s = ''10'' then Fin 10 else if s = ''50'' then Fin 50 else NaN)"

text \<open>
  The rounding to the nearest double on the reals that the examples of \<open>measure('29%', 50)\<close>
  and \<open>measure('70%', 45)\<close> below round: 29/100, whose nearest double is
  \<open>5224175567749775 / 2^54\<close>, and 50 times that double, whose nearest double is
  \<open>8162774324609023 / 2^49\<close>; 70/100, whose nearest double is \<open>3152519739159347 / 2^52\<close>,
  and 45 times that double, whose nearest double is \<open>8866461766385663 / 2^48\<close>. Every
  other real is left as it is.
\<close>

definition example_rd :: "real \<Rightarrow> jsnum" where
  "example_rd x =
     (if x = 29 / 100 then Fin (5224175567749775 / 2 ^ 54)
      else if x = 50 * (5224175567749775 / 2 ^ 54) then Fin (8162774324609023 / 2 ^ 49)
      else if x = 70 / 100 then Fin (3152519739159347 / 2 ^ 52)
      else if x = 45 * (3152519739159347 / 2 ^ 52) then Fin (8866461766385663 / 2 ^ 48)
      else Fin x)"



section \<open>core/Util.js: aggregateNest\<close>

text \<open>
  An object: its own properties in the order they were added (the keys here are names,
  which keep that order). Reading a missing property gives \<open>undefined\<close>; assigning to an
  existing one keeps its place, to a new one appends it.
\<close>

type_synonym obj = "(string \<times> jsval) list"

definition get :: "obj \<Rightarrow> string \<Rightarrow> jsval" where
  "get f k = (case map_of f k of None \<Rightarrow> JUndef | Some v \<Rightarrow> v)"

fun put :: "obj \<Rightarrow> string \<Rightarrow> jsval \<Rightarrow> obj" where
  "put [] k v = [(k, v)]"
| "put ((k', v') # f) k v = (if k' = k then (k, v) # f else (k', v') # put f k v)"

text \<open>
  A node of a nest: its properties other than \<open>values\<close>, and its \<open>values\<close> (\<open>None\<close> when the
  node has none, as a record of the innermost level; an array otherwise).
\<close>

datatype nnode = NNode (props: obj) (vals: "nnode list option")

text \<open>The global \<open>isNaN(v)\<close>, which converts its argument to a Number first.\<close>

definition js_isNaN :: "(string \<Rightarrow> jsnum) \<Rightarrow> jsval \<Rightarrow> bool" where
  "js_isNaN sn v = isNaN (Number sn v)"

text \<open>The property names \<open>'agg_' + p\<close> and \<open>'childProp_' + p\<close>.\<close>

definition agg_key :: "string \<Rightarrow> string" where
  "agg_key p = ''agg_'' @ p"

definition childProp_key :: "string \<Rightarrow> string" where
  "childProp_key p = ''childProp_'' @ p"

text \<open>
  The loop that finds \<open>deepestChildNode\<close>: reading \<open>.values\<close> of \<open>undefined\<close>, the first
  element of an empty array, raises a TypeError.
\<close>

fun deepest :: "nnode \<Rightarrow> error + obj" where
  "deepest (NNode f None) = Inr f"
| "deepest (NNode f (Some [])) = Inl TypeError"
| "deepest (NNode f (Some (c # cs))) = deepest c"

text \<open>
  One turn of the loop of \<open>setSourceFields(child, parent)\<close>, for the property name \<open>cp\<close>,
  on the properties of the child and of the parent. \<open>x != undefined\<close> is false for
  \<open>undefined\<close> and \<open>null\<close> only.
\<close>

definition sourceField_step :: "string \<Rightarrow> obj \<times> obj \<Rightarrow> obj \<times> obj" where
  "sourceField_step cp cpf =
     (case cpf of (c, pf) \<Rightarrow>
        let c1 = (if get c cp \<noteq> JUndef \<and> get c cp \<noteq> JNull
                  then put c (childProp_key cp) (get c cp) else c)
        in (c1,
            put pf (childProp_key cp)
              (if truthy (get c1 (childProp_key cp)) then get c1 (childProp_key cp)
               else get c1 cp)))"

text \<open>\<open>setSourceFields(child, parent)\<close>; \<open>parent\<close> is \<open>None\<close> when it is \<open>undefined\<close>.\<close>

definition setSourceFields :: "string list \<Rightarrow> nnode \<Rightarrow> obj option \<Rightarrow> nnode \<times> obj option" where
  "setSourceFields childProperties child parent =
     (case parent of
        None \<Rightarrow> (child, None)
      | Some pf \<Rightarrow>
          (case fold sourceField_step childProperties (props child, pf) of
             (c1, pf1) \<Rightarrow> (NNode c1 (vals child), Some pf1)))"

text \<open>
  One turn of the loop over \<open>properties\<close> for a node without \<open>values\<close>, on the node's
  properties.
\<close>

definition leaf_step :: "(string \<Rightarrow> jsnum) \<Rightarrow> string \<Rightarrow> obj \<Rightarrow> obj" where
  "leaf_step sn p f =
     (let f1 = put f (agg_key p) (JNum (Number sn (get f p)))
      in if js_isNaN sn (get f1 (agg_key p)) then put f1 (agg_key p) (JNum (Fin 0)) else f1)"

text \<open>
  One turn of the loop over \<open>properties\<close> for a node with \<open>values\<close> and one of its children,
  on the node's properties; \<open>cf\<close> are the child's properties.
\<close>

definition group_step ::
  "(string \<Rightarrow> jsnum) \<Rightarrow> (jsval \<Rightarrow> jsval \<Rightarrow> jsval) \<Rightarrow> obj \<Rightarrow> string \<Rightarrow> obj \<Rightarrow> obj" where
  "group_step sn calculation cf p f =
     (let f1 = (if js_isNaN sn (get f (agg_key p)) then put f (agg_key p) (JNum (Fin 0)) else f)
      in put f1 (agg_key p) (calculation (get f1 (agg_key p)) (get cf (agg_key p))))"

text \<open>
  \<open>aggregateNodes(nodes, parent)\<close>, which changes the nodes and the parent in place:
  \<open>aggregateNodes\<close> returns the nodes and the parent's properties as the call leaves them,
  and \<open>aggregateNode\<close> is the body of its loop without the final call of
  \<open>setSourceFields\<close>.
\<close>

fun aggregateNode ::
    "(string \<Rightarrow> jsnum) \<Rightarrow> string list \<Rightarrow> (jsval \<Rightarrow> jsval \<Rightarrow> jsval) \<Rightarrow> string list \<Rightarrow>
     nnode \<Rightarrow> nnode"
  and aggregateNodes ::
    "(string \<Rightarrow> jsnum) \<Rightarrow> string list \<Rightarrow> (jsval \<Rightarrow> jsval \<Rightarrow> jsval) \<Rightarrow> string list \<Rightarrow>
     nnode list \<Rightarrow> obj option \<Rightarrow> nnode list \<times> obj option" where
  "aggregateNode sn properties calculation cps (NNode f None) =
     NNode (fold (leaf_step sn) properties f) None"
| "aggregateNode sn properties calculation cps (NNode f (Some vs)) =
     (case aggregateNodes sn properties calculation cps vs (Some f) of
        (vs', pf) \<Rightarrow>
          NNode (fold (\<lambda>child g. fold (group_step sn calculation (props child)) properties g) vs'
                   (case pf of None \<Rightarrow> f | Some f' \<Rightarrow> f'))
                (Some vs'))"
| "aggregateNodes sn properties calculation cps [] parent = ([], parent)"
| "aggregateNodes sn properties calculation cps (node # ns) parent =
     (case setSourceFields cps (aggregateNode sn properties calculation cps node) parent of
        (node', parent') \<Rightarrow>
          (case aggregateNodes sn properties calculation cps ns parent' of
             (ns', parent'') \<Rightarrow> (node' # ns', parent'')))"

text \<open>
  \<open>vizuly2.core.util.aggregateNest(nest, properties, calculation)\<close>: the nest as the call
  leaves it, or the TypeError raised while looking for the deepest child (\<open>nest[0]\<close> of an
  empty nest is \<open>undefined\<close>).
\<close>

definition aggregateNest ::
  "(string \<Rightarrow> jsnum) \<Rightarrow> nnode list \<Rightarrow> string list \<Rightarrow> (jsval \<Rightarrow> jsval \<Rightarrow> jsval) \<Rightarrow>
   error + nnode list" where
  "aggregateNest sn nest properties calculation =
     (case nest of
        [] \<Rightarrow> Inl TypeError
      | n # ns \<Rightarrow>
          (case deepest n of
             Inl e \<Rightarrow> Inl e
           | Inr leaf \<Rightarrow>
               Inr (fst (aggregateNodes sn properties calculation (map fst leaf) nest None))))"

text \<open>
  The step of the fold that \<open>aggregateNodes\<close> runs over the children of a node: an
  accumulator that is not a number is replaced by 0 before \<open>calculation\<close> is applied.
\<close>

definition combine_step ::
  "(string \<Rightarrow> jsnum) \<Rightarrow> (jsval \<Rightarrow> jsval \<Rightarrow> jsval) \<Rightarrow> jsval \<Rightarrow> jsval \<Rightarrow> jsval" where
  "combine_step sn calculation acc v =
     calculation (if js_isNaN sn acc then JNum (Fin 0) else acc) v"

text \<open>
  The sum of the function's documentation, \<open>Number(a) + Number(b)\<close>, as the exact sum (the
  sums of the examples below are small whole numbers, which are doubles).
\<close>

definition calc_sum :: "(string \<Rightarrow> jsnum) \<Rightarrow> jsval \<Rightarrow> jsval \<Rightarrow> jsval" where
  "calc_sum sn a b = JNum (jadd (Number sn a) (Number sn b))"

text \<open>
  A sum that rejects a negative term: \<open>function (a, b) { return b < 0 ? NaN : a + b; }\<close> on
  Numbers, as the exact sum likewise.
\<close>

definition calc_sum_nonneg :: "(string \<Rightarrow> jsnum) \<Rightarrow> jsval \<Rightarrow> jsval \<Rightarrow> jsval" where
  "calc_sum_nonneg sn a b =
     (if jless (Number sn b) (Fin 0) then JNum NaN
      else JNum (jadd (Number sn a) (Number sn b)))"

text \<open>
  A nest of two levels whose records carry \<open>x\<close> = 1, 2, 3 in one group and 4, 5 in the other,
  both groups under one outer group.
\<close>

definition example_nest :: "nnode list" where
  "example_nest =
     [NNode [(''key'', JStr ''all'')]
        (Some
          [NNode [(''key'', JStr ''a'')]
             (Some [NNode [(''x'', JNum (Fin 1))] None, NNode [(''x'', JNum (Fin 2))] None,
                    NNode [(''x'', JNum (Fin 3))] None]),
           NNode [(''key'', JStr ''b'')]
             (Some [NNode [(''x'', JNum (Fin 4))] None, NNode [(''x'', JNum (Fin 5))] None])])]"

section \<open>viz/WeightedTree.js: endUpdate\<close>

text \<open>
  The latch of \<open>endUpdate(transition, callback)\<close>: the counter \<open>n\<close> and how often the
  callback has been called.
\<close>

record latch =
  latch_n :: int
  fired :: nat

text \<open>
  \<open>endUpdate\<close> itself: \<open>n\<close> starts at 0 and \<open>transition.each\<close> increments it once for every
  element of the transition.
\<close>

definition endUpdate :: "'a list \<Rightarrow> latch" where
  "endUpdate batch = \<lparr> latch_n = fold (\<lambda>e k. k + 1) batch 0, fired = 0 \<rparr>"

text \<open>The listener of the \<open>end\<close> event of one element: \<open>if (!--n) callback(...)\<close>.\<close>

definition on_end :: "latch \<Rightarrow> latch" where
  "on_end l =
     (let k = latch_n l - 1
      in \<lparr> latch_n = k, fired = (if k = 0 then fired l + 1 else fired l) \<rparr>)"

text \<open>
  Modelled from the spec: how a transition of the batch stops. It reaches its end state, and
  the library dispatches \<open>end\<close> to it; or a later render pass supersedes it while it is in
  flight (``a new update implicitly supersedes by re-targeting attributes''), and the
  library dispatches \<open>interrupt\<close> to it and never \<open>end\<close>. \<open>endUpdate\<close> registers a listener
  for \<open>end\<close> only, so an interrupted transition leaves the latch as it is.
\<close>

datatype tevent = End | Interrupt

fun on_event :: "tevent \<Rightarrow> latch \<Rightarrow> latch" where
  "on_event End l = on_end l"
| "on_event Interrupt l = l"

section \<open>Measurement utilities: theorems\<close>

text \<open>
  With \<open>Fin\<close> for the rounding nothing is rounded. The examples below take it, except
  those of \<open>measure\<close> alone, which take \<open>example_rd\<close>: the Numbers they state are doubles,
  and the rounding to the nearest double gives the same ones.
\<close>

lemma rnd_Fin [simp]: "rnd Fin a = a"
  by (cases a) simp_all

lemma fadd_Fin [simp]: "fadd Fin a b = jadd a b"
  by (simp add: fadd_def)

lemma fsub_Fin [simp]: "fsub Fin a b = jsub a b"
  by (simp add: fsub_def)

lemma fmul_Fin [simp]: "fmul Fin a b = jmul a b"
  by (simp add: fmul_def)

lemma fdiv_Fin [simp]: "fdiv Fin a b = jdiv a b"
  by (simp add: fdiv_def)

lemma double_rounding_Fin: "double_rounding Fin"
  by (simp add: double_rounding_def)

lemma double_rounding_int:
  "double_rounding rd \<Longrightarrow> \<bar>n\<bar> \<le> 2 ^ 53 \<Longrightarrow> rd (of_int n) = Fin (of_int n)"
  by (simp add: double_rounding_def)

lemma double_rounding_near:
  "double_rounding rd \<Longrightarrow> 1 / 2 ^ 1022 \<le> \<bar>x\<bar> \<Longrightarrow> \<bar>x\<bar> \<le> 2 ^ 1023 \<Longrightarrow>
     \<exists>y. rd x = Fin y \<and> \<bar>y - x\<bar> \<le> \<bar>x\<bar> / 2 ^ 53"
  by (simp add: double_rounding_def)

lemma util_measure_percent:
  "util_measure rd sn (JStr (p @ ''%'')) d =
     Math_round (fmul rd d (fdiv rd (Math_min (sn p) (Fin 100)) (Fin 100)))"
  by (simp add: util_measure_def)

lemma util_measure_other:
  "\<not> is_percent m \<Longrightarrow> util_measure rd sn m d = Number sn m"
  by (cases m) (auto simp: util_measure_def is_percent_def)

lemma is_percent_iff: "is_percent m = (\<exists>p. m = JStr (p @ ''%''))"
proof (cases m)
  case (JStr s)
  show ?thesis
  proof (cases "s = []")
    case True
    with JStr show ?thesis by (simp add: is_percent_def)
  next
    case False
    then have "s = butlast s @ [last s]" by simp
    with JStr False show ?thesis
      by (auto simp: is_percent_def) (metis append_butlast_last_id)
  qed
qed (simp_all add: is_percent_def)

text \<open>
  Ten percent of 500 in doubles: the quotient 10 / 100 is rounded, and so is its product
  with 500, but neither by enough to move the product away from 50 by a half.
\<close>

lemma tenth_of_500:
  assumes "double_rounding rd"
  shows "Math_round (fmul rd (Fin 500) (fdiv rd (Fin 10) (Fin 100))) = Fin 50"
proof -
  from double_rounding_near [OF assms, of "1 / 10"] obtain r where
    r: "rd (1 / 10) = Fin r" "\<bar>r - 1 / 10\<bar> \<le> \<bar>1 / 10\<bar> / 2 ^ 53"
    by auto
  have "\<bar>1 / 10 :: real\<bar> / 2 ^ 53 \<le> 1 / 10000" by simp
  with r(2) have rb: "999 / 10000 \<le> r" "r \<le> 1001 / 10000" by linarith+
  then have range: "1 / 2 ^ 1022 \<le> \<bar>500 * r\<bar>" "\<bar>500 * r\<bar> \<le> 2 ^ 1023" by simp_all
  from double_rounding_near [OF assms range] obtain y where
    y: "rd (500 * r) = Fin y" "\<bar>y - 500 * r\<bar> \<le> \<bar>500 * r\<bar> / 2 ^ 53"
    by auto
  have "\<bar>500 * r\<bar> / 2 ^ 53 \<le> \<bar>500 * r\<bar> / 1000"
    by (intro divide_left_mono) simp_all
  with y(2) rb have yb: "99 / 2 < y" "y < 101 / 2" by linarith+
  then have "round y = 50" unfolding round_def by linarith
  with r(1) y(1) show ?thesis
    by (simp add: fmul_def fdiv_def)
qed

text \<open>
  Claim C3. \<open>size\<close> on the margin \<open>{top:10, bottom:10, left:'10%', right:'10%'}\<close> with
  width 500 and height 500 is \<open>{width:400, height:480, left:50, top:10, right:50,
  bottom:10}\<close> (given that the language reads the string \<open>'10'\<close> as the number 10, and
  computing in doubles); in general the left and right sides are measured against the
  width, the top and bottom sides against the height, and the width and height are the
  input dimensions minus the two measured margins of their axis.
\<close>

theorem size_example:
  assumes "sn ''10'' = Fin 10" and "double_rounding rd"
  shows "util_size rd sn \<lparr> m_top = JNum (Fin 10), m_bottom = JNum (Fin 10),
                          m_left = JStr ''10%'', m_right = JStr ''10%'' \<rparr> (Fin 500) (Fin 500)
           = \<lparr> s_width = Fin 400, s_height = Fin 480, s_top = Fin 10, s_left = Fin 50,
               s_bottom = Fin 10, s_right = Fin 50 \<rparr> \<and>
         s_left (util_size rd sn mg w h) = util_measure rd sn (m_left mg) w \<and>
         s_right (util_size rd sn mg w h) = util_measure rd sn (m_right mg) w \<and>
         s_top (util_size rd sn mg w h) = util_measure rd sn (m_top mg) h \<and>
         s_bottom (util_size rd sn mg w h) = util_measure rd sn (m_bottom mg) h \<and>
         s_width (util_size rd sn mg w h) =
           fsub rd (fsub rd w (s_left (util_size rd sn mg w h)))
             (s_right (util_size rd sn mg w h)) \<and>
         s_height (util_size rd sn mg w h) =
           fsub rd (fsub rd h (s_top (util_size rd sn mg w h)))
             (s_bottom (util_size rd sn mg w h))"
proof -
  have pc: "util_measure rd sn (JStr ''10%'') (Fin 500) = Fin 50"
    using util_measure_percent [of rd sn "''10''" "Fin 500"] tenth_of_500 [OF assms(2)] assms(1)
    by (simp add: Math_min_def isNaN_def)
  have nm: "util_measure rd sn (JNum (Fin 10)) (Fin 500) = Fin 10"
    by (simp add: util_measure_def)
  have ints: "rd 450 = Fin 450" "rd 400 = Fin 400" "rd 490 = Fin 490" "rd 480 = Fin 480"
    using double_rounding_int [OF assms(2), of 450] double_rounding_int [OF assms(2), of 400]
      double_rounding_int [OF assms(2), of 490] double_rounding_int [OF assms(2), of 480]
    by simp_all
  show ?thesis
    by (simp add: util_size_def pc nm fsub_def jsub_def ints)
qed

theorem size_example_witness:
  "(\<lambda>s. if s = ''10'' then Fin 10 else NaN) ''10'' = Fin 10 \<and> double_rounding Fin \<and>
   util_size Fin (\<lambda>s. if s = ''10'' then Fin 10 else NaN)
      \<lparr> m_top = JNum (Fin 10), m_bottom = JNum (Fin 10),
        m_left = JStr ''10%'', m_right = JStr ''10%'' \<rparr> (Fin 500) (Fin 500)
     = \<lparr> s_width = Fin 400, s_height = Fin 480, s_top = Fin 10, s_left = Fin 50,
         s_bottom = Fin 10, s_right = Fin 50 \<rparr>"
  using size_example [of "\<lambda>s. if s = ''10'' then Fin 10 else NaN" Fin] double_rounding_Fin
  by simp

text \<open>
  Claim C10 fails as stated: \<open>measure('29%', 50)\<close> is 14 and \<open>measure('70%', 45)\<close> is 31,
  where \<open>round(d * min(percent, 100) / 100)\<close> is 15 and 32, the integers that \<open>Math.round\<close>
  gives for 14.5 and 31.5, whether the expression is taken exactly or computed in doubles
  as it is written (1450 / 100 is 14.5, and 3150 / 100 is 31.5). \<open>measure\<close> divides first:
  the double nearest to 29/100 lies below it, and 50 times that double rounds to a double
  below 14.5; likewise for 70/100 and 45.
\<close>

theorem measure_below_half:
  "util_measure example_rd (\<lambda>s. if s = ''29'' then Fin 29 else NaN) (JStr ''29%'') (Fin 50)
     = Fin 14 \<and>
   Math_round (jdiv (jmul (Fin 50) (Math_min (Fin 29) (Fin 100))) (Fin 100)) = Fin 15 \<and>
   Math_round (fdiv example_rd (fmul example_rd (Fin 50) (Math_min (Fin 29) (Fin 100))) (Fin 100))
     = Fin 15 \<and>
   util_measure example_rd (\<lambda>s. if s = ''70'' then Fin 70 else NaN) (JStr ''70%'') (Fin 45)
     = Fin 31 \<and>
   Math_round (jdiv (jmul (Fin 45) (Math_min (Fin 70) (Fin 100))) (Fin 100)) = Fin 32 \<and>
   Math_round (fdiv example_rd (fmul example_rd (Fin 45) (Math_min (Fin 70) (Fin 100))) (Fin 100))
     = Fin 32"
proof -
  have k: "round (8162774324609023 / 2 ^ 49 :: real) = 14"
    unfolding round_def by (simp add: floor_eq_iff)
  have h: "round (29 / 2 :: real) = 15"
    unfolding round_def by (simp add: floor_eq_iff)
  have k': "round (8866461766385663 / 2 ^ 48 :: real) = 31"
    unfolding round_def by (simp add: floor_eq_iff)
  have h': "round (63 / 2 :: real) = 32"
    unfolding round_def by (simp add: floor_eq_iff)
  from k h k' h' show ?thesis
    by (simp add: util_measure_def fmul_def fdiv_def Math_min_def isNaN_def example_rd_def)
qed

text \<open>
  Claim C10, amended. For a margin value that is a string ending in \<open>%\<close>, \<open>measure\<close> returns
  \<open>Math.round(d * r)\<close> with \<open>r = Math.min(percent, 100) / 100\<close>, where \<open>percent\<close> is the
  Number read from the string without its last character: the percentage is clamped to at
  most 100 and divided by 100, which the language rounds to the double \<open>r\<close>; the product of
  \<open>d\<close> and \<open>r\<close> is rounded to the double \<open>y\<close>, and the result is the integer nearest to
  \<open>y\<close>, a tie going up. For every other value the result is \<open>Number(m)\<close>; a string that is
  no number gives not-a-number, and no branch of \<open>measure\<close> raises.
\<close>

theorem measure_cases:
  "(is_percent m \<longleftrightarrow> (\<exists>p. m = JStr (p @ ''%''))) \<and>
   util_measure rd sn (JStr (p @ ''%'')) d =
     Math_round (fmul rd d (fdiv rd (Math_min (sn p) (Fin 100)) (Fin 100))) \<and>
   (sn p = Fin q \<longrightarrow> rd (min q 100 / 100) = Fin r \<longrightarrow> rd (x * r) = Fin y \<longrightarrow>
      util_measure rd sn (JStr (p @ ''%'')) (Fin x) = Fin (of_int \<lfloor>y + 1 / 2\<rfloor>)) \<and>
   (\<not> is_percent m \<longrightarrow> util_measure rd sn m d = Number sn m) \<and>
   (\<not> is_percent (JStr s) \<longrightarrow> sn s = NaN \<longrightarrow> util_measure rd sn (JStr s) d = NaN)"
proof (intro conjI impI)
  show "is_percent m \<longleftrightarrow> (\<exists>p. m = JStr (p @ ''%''))" by (rule is_percent_iff)
  show "util_measure rd sn (JStr (p @ ''%'')) d =
     Math_round (fmul rd d (fdiv rd (Math_min (sn p) (Fin 100)) (Fin 100)))"
    by (rule util_measure_percent)
  show "util_measure rd sn (JStr (p @ ''%'')) (Fin x) = Fin (of_int \<lfloor>y + 1 / 2\<rfloor>)"
    if "sn p = Fin q" "rd (min q 100 / 100) = Fin r" "rd (x * r) = Fin y"
    using that
    by (simp add: util_measure_percent Math_min_def isNaN_def min_def fmul_def fdiv_def
        round_def split: if_splits)
  show "util_measure rd sn m d = Number sn m" if "\<not> is_percent m"
    using that by (rule util_measure_other)
  show "util_measure rd sn (JStr s) d = NaN" if "\<not> is_percent (JStr s)" "sn s = NaN"
    using that by (simp add: util_measure_other)
qed

theorem measure_cases_witness:
  "util_measure example_rd (\<lambda>s. if s = ''50'' then Fin 50 else NaN) (JStr ''50%'') (Fin 200)
     = Fin 100 \<and>
   util_measure example_rd (\<lambda>s. if s = ''50'' then Fin 50 else NaN) (JNum (Fin 7)) (Fin 200)
     = Fin 7 \<and>
   util_measure example_rd (\<lambda>s. if s = ''50'' then Fin 50 else NaN) (JStr ''wide'') (Fin 200)
     = NaN"
proof -
  have r: "example_rd (min 50 100 / 100) = Fin (1 / 2)"
    by (simp add: example_rd_def)
  have y: "example_rd (200 * (1 / 2)) = Fin 100"
    by (simp add: example_rd_def)
  from measure_cases [of "JNum (Fin 7)" example_rd "\<lambda>s. if s = ''50'' then Fin 50 else NaN"
      "''50''" "Fin 200" 50 "1 / 2" 200 100 "''wide''"]
    measure_cases [of "JStr ''wide''" example_rd "\<lambda>s. if s = ''50'' then Fin 50 else NaN"
      "''50''" "Fin 200" 50 "1 / 2" 200 100 "''wide''"]
    r y
  show ?thesis
    by (simp add: is_percent_def)
qed

section \<open>The layout hierarchy: theorems\<close>

lemma list_all_concat_map [simp]:
  "list_all P (concat (map f xs)) = list_all (\<lambda>x. list_all P (f x)) xs"
  by (induction xs) simp_all

lemma list_all_update:
  assumes "list_all P xs" and "i < length xs \<Longrightarrow> P y"
  shows "list_all P (xs[i := y])"
proof (cases "i < length xs")
  case True
  with assms show ?thesis
    by (auto simp: list_all_iff dest!: subsetD [OF set_update_subset_insert])
next
  case False
  then have "xs[i := y] = xs" by (simp add: list_update_beyond)
  with assms show ?thesis by simp
qed

lemma children_collapse [simp]: "children (collapse n) = None"
  by (cases n rule: collapse.cases) simp_all


lemma hierarchy_fields:
  "collapsedChildren (hierarchy d) = None \<and> children (hierarchy d) \<noteq> Some []"
  by (cases d rule: hierarchy.cases) simp_all

lemma ndata_hierarchy [simp]: "ndata (hierarchy d) = idata d"
  by (cases d rule: hierarchy.cases) simp_all

lemma ndata_collapse [simp]: "ndata (collapse n) = ndata n"
  by (cases n rule: collapse.cases) simp_all



lemma hierarchy_ok: "list_all fields_ok (all_nodes (hierarchy d))"
proof (induction d rule: hierarchy.induct)
  case (3 a c cs)
  then show ?case
    by (simp add: list_all_iff fields_ok_def nonempty_def) blast
qed (simp_all add: fields_ok_def)

lemma collapse_ok:
  "list_all fields_ok (all_nodes n) \<Longrightarrow> list_all fields_ok (all_nodes (collapse n))"
proof (induction n rule: collapse.induct)
  case (1 a h)
  then show ?case by simp
next
  case (2 a cs h)
  then show ?case
    by (cases h) (auto simp: list_all_iff fields_ok_def nonempty_def)
qed

lemma toggle_fields_ok:
  assumes "list_all fields_ok (all_nodes d)"
  shows "list_all fields_ok (all_nodes (toggle_fields d))"
proof (cases d)
  case (LNode a c h)
  with assms show ?thesis
    by (cases c; cases h) (auto simp: toggle_fields_def fields_ok_def nonempty_def)
qed

lemma modify_at_ok:
  "list_all fields_ok (all_nodes n) \<Longrightarrow> list_all fields_ok (all_nodes (modify_at p toggle_fields n))"
proof (induction p "toggle_fields :: 'a lnode \<Rightarrow> 'a lnode" n rule: modify_at.induct)
  case (1 n)
  then show ?case by (simp add: toggle_fields_ok)
next
  case (2 i p a cs h)
  from 2 have sub: "list_all (\<lambda>n. list_all fields_ok (all_nodes n)) cs"
    by simp
  have "i < length cs \<Longrightarrow> list_all fields_ok (all_nodes (cs ! i))"
    using sub by (simp add: list_all_length)
  then have "list_all (\<lambda>n. list_all fields_ok (all_nodes n)) (cs[i := modify_at p toggle_fields (cs ! i)])"
    using sub 2 by (intro list_all_update) auto
  moreover have "fields_ok (LNode a (Some (cs[i := modify_at p toggle_fields (cs ! i)])) h)"
    using 2(2) by (simp add: fields_ok_def nonempty_def)
  moreover have "list_all (\<lambda>n. list_all fields_ok (all_nodes n)) (case h of None \<Rightarrow> [] | Some hs \<Rightarrow> hs)"
    using 2(2) by simp
  ultimately show ?case
    by simp
next
  case (3 i p a hs)
  from 3 have sub: "list_all (\<lambda>n. list_all fields_ok (all_nodes n)) hs"
    by simp
  have "i < length hs \<Longrightarrow> list_all fields_ok (all_nodes (hs ! i))"
    using sub by (simp add: list_all_length)
  then have "list_all (\<lambda>n. list_all fields_ok (all_nodes n)) (hs[i := modify_at p toggle_fields (hs ! i)])"
    using sub 3 by (intro list_all_update) auto
  moreover have "fields_ok (LNode a None (Some (hs[i := modify_at p toggle_fields (hs ! i)])))"
    using 3(2) by (simp add: fields_ok_def nonempty_def)
  ultimately show ?case
    by simp
next
  case (4 i p a)
  then show ?case by simp
qed

lemma toggles_ok:
  "list_all fields_ok (all_nodes h) \<Longrightarrow> list_all fields_ok (all_nodes (toggles h ps))"
proof (induction ps arbitrary: h)
  case Nil
  then show ?case by simp
next
  case (Cons p ps)
  show ?case
  proof (cases "toggleNode h p")
    case None
    with Cons show ?thesis by simp
  next
    case (Some r)
    then have "fst r = modify_at p toggle_fields h"
      by (auto simp: toggleNode_def split: option.splits)
    with Some Cons show ?thesis
      by (cases r) (simp add: modify_at_ok)
  qed
qed

lemma refreshData_fields [simp]:
  "hieararchy (refreshData dat st) = Some (hierarchy dat)"
  "dataIsDirty (refreshData dat st) = dataIsDirty st"
  "refreshNeeded (refreshData dat st) = refreshNeeded st"
  "nodes (refreshData dat st) = node_depths 0 (hierarchy dat)"
  "vsize (refreshData dat st) = vsize st"
  by (simp_all add: refreshData_def Let_def split: prod.splits)

lemma viz_measure_refresh:
  assumes "viz_measure rd sn sc dat st0 = Inr st'"
  shows "\<exists>st. measure_refresh dat
                 (st0 \<lparr> vsize := util_size rd sn (sc_margin sc) (sc_width sc) (sc_height sc) \<rparr>) = Inr st \<and>
              hieararchy st' = hieararchy st \<and> dataIsDirty st' = dataIsDirty st \<and>
              refreshNeeded st' = refreshNeeded st \<and> nodes st' = nodes st \<and>
              maxDepth st' = maxDepth st \<and> vsize st' = vsize st"
  using assms by (auto simp: viz_measure_def split: sum.splits)

lemma measure_refresh_dirty:
  assumes "dataIsDirty st" and "ichildren dat = Some (c # cs)"
  shows "measure_refresh dat st =
           Inr ((refreshData dat st) \<lparr> hieararchy :=
                  Some (LNode (idata dat) (Some (map (\<lambda>d. collapse (hierarchy d)) (c # cs))) None),
                dataIsDirty := False, refreshNeeded := False \<rparr>)"
proof -
  obtain a where dat: "dat = INode a (Some (c # cs))"
    using assms(2) by (cases dat) simp
  show ?thesis
    using assms(1) by (simp add: measure_refresh_def dat Let_def)
qed

lemma measure_refresh_ok:
  assumes "dataIsDirty st \<or> refreshNeeded st"
    and "measure_refresh dat st = Inr st'" and "hieararchy st' = Some h"
  shows "list_all fields_ok (all_nodes h)"
proof (cases "dataIsDirty st")
  case False
  with assms have "h = hierarchy dat"
    by (auto simp: measure_refresh_def Let_def)
  then show ?thesis by (simp add: hierarchy_ok)
next
  case True
  with assms obtain cs where cs: "children (hierarchy dat) = Some cs"
    and h: "h = LNode (ndata (hierarchy dat)) (Some (map collapse cs)) (collapsedChildren (hierarchy dat))"
    by (auto simp: measure_refresh_def Let_def split: option.splits)
  have ok: "list_all fields_ok (all_nodes (hierarchy dat))" by (rule hierarchy_ok)
  obtain a where hd: "hierarchy dat = LNode a (Some cs) None"
    using cs hierarchy_fields [of dat] by (cases "hierarchy dat") auto
  from ok hd have "cs \<noteq> []" and sub: "list_all (\<lambda>n. list_all fields_ok (all_nodes n)) cs"
    by (auto simp: fields_ok_def nonempty_def)
  from sub have "list_all (\<lambda>n. list_all fields_ok (all_nodes n)) (map collapse cs)"
    by (induction cs) (simp_all add: collapse_ok)
  with \<open>cs \<noteq> []\<close> show ?thesis
    unfolding h hd by (simp add: fields_ok_def nonempty_def list.pred_map comp_def)
qed

lemma viz_measure_ok:
  assumes "dataIsDirty st \<or> refreshNeeded st"
    and "viz_measure rd sn sc dat st = Inr st'" and "hieararchy st' = Some h"
  shows "list_all fields_ok (all_nodes h)"
proof -
  from viz_measure_refresh [OF assms(2)] obtain st1 where
    "measure_refresh dat
       (st \<lparr> vsize := util_size rd sn (sc_margin sc) (sc_width sc) (sc_height sc) \<rparr>) = Inr st1"
    and "hieararchy st' = hieararchy st1"
    by blast
  with assms(1,3) show ?thesis
    by (intro measure_refresh_ok [of "st \<lparr> vsize := util_size rd sn (sc_margin sc) (sc_width sc) (sc_height sc) \<rparr>" dat st1 h])
      simp_all
qed

lemma node_at_modify_at:
  "node_at h p = Some d \<Longrightarrow> node_at (modify_at p f h) p = Some (f d)"
proof (induction p f h rule: modify_at.induct)
  case (1 f n)
  then show ?case by simp
next
  case (2 i p f a cs h)
  then show ?case by (simp add: kids_def split: if_splits)
next
  case (3 i p f a hs)
  then show ?case by (simp add: kids_def split: if_splits)
next
  case (4 i p f a)
  then show ?case by (simp add: kids_def)
qed

lemma node_at_parent:
  "node_at h p = Some d \<Longrightarrow> p \<noteq> [] \<Longrightarrow>
     \<exists>q. node_at h (butlast p) = Some q \<and> last p < length (kids q) \<and> kids q ! last p = d"
proof (induction h p rule: node_at.induct)
  case (1 n)
  then show ?case by simp
next
  case (2 n i p)
  then show ?case by (cases "p = []") (auto split: if_splits)
qed

lemma toggle_duration:
  "toggleNode h p = Some (h', cs) \<Longrightarrow> render_durations sd cs = [sd]"
  by (auto simp: toggleNode_def updateNode_duration_def split: option.splits if_splits)

lemma viz_measure_dirty:
  assumes "dataIsDirty st" and "ichildren dat = Some (c # cs)"
  shows "\<exists>st'. viz_measure rd sn sc dat st = Inr st' \<and>
               hieararchy st' =
                 Some (LNode (idata dat) (Some (map (\<lambda>d. collapse (hierarchy d)) (c # cs))) None) \<and>
               \<not> dataIsDirty st' \<and> \<not> refreshNeeded st' \<and>
               nodeScale_range st' =
                 (Fin (3 / 2),
                  fdiv rd (if maxNodeRadius sc = Fin (- 1)
                        then fdiv rd (s_height (util_size rd sn (sc_margin sc) (sc_width sc) (sc_height sc)))
                               (Fin (real (length (c # cs))))
                        else maxNodeRadius sc) (Fin 2))"
proof -
  let ?st = "st \<lparr> vsize := util_size rd sn (sc_margin sc) (sc_width sc) (sc_height sc) \<rparr>"
  have d: "dataIsDirty ?st" using assms(1) by simp
  show ?thesis
    unfolding viz_measure_def measure_refresh_dirty [OF d assms(2)]
    by (simp add: measure_scale_def assms(2))
qed


text \<open>
  Claim C1, evaluated on the code. \<open>toggleNode\<close> passes the duration 0 to \<open>updateNode\<close>, whose
  first statement replaces a falsy duration, 0 included, by \<open>scope.duration\<close>: with the
  default duration 500, the render pass of a toggle runs its transitions over 500
  milliseconds, not 0.
\<close>

theorem toggle_uses_configured_duration:
  "map_option (\<lambda>r. render_durations (JNum (Fin 500)) (snd r))
     (toggleNode (LNode (0::nat) (Some [LNode 1 None (Some [LNode 2 None None])]) None) [0])
   = Some [JNum (Fin 500)] \<and>
   updateNode_duration (JNum (Fin 500)) (JNum (Fin 0)) \<noteq> JNum (Fin 0)"
  by (simp add: toggleNode_def kids_def updateNode_duration_def toggle_fields_def)

text \<open>
  Claim C2 fails as stated: after the first measure pass of a root with one childless
  child, the child has neither field set.
\<close>

theorem leaf_has_neither_field:
  "\<exists>st'. viz_measure Fin example_sn (default_scope (\<lambda>a. Fin (real a)))
            (INode (0::nat) (Some [INode 1 None])) new_component = Inr st' \<and>
         hieararchy st' = Some (LNode 0 (Some [LNode 1 None None]) None) \<and>
         \<not> list_all exactly_one
             (all_nodes (toggles (LNode (0::nat) (Some [LNode 1 None None]) None) []))"
proof -
  have dirty: "dataIsDirty (new_component :: nat vstate)"
    by (simp add: new_component_def)
  from viz_measure_dirty [OF dirty, of "INode (0::nat) (Some [INode 1 None])" "INode 1 None" "[]"
      Fin example_sn "default_scope (\<lambda>a. Fin (real a))"]
  show ?thesis
    by (auto simp: exactly_one_def nonempty_def)
qed

text \<open>
  Claim C2, amended. After a measure pass that rebuilds the hierarchy (the first one
  collapses it) and after any sequence of \<open>toggleNode\<close> calls, every node of the hierarchy
  has at most one of \<open>children\<close> and \<open>_children\<close> non-empty: either both are unset (a node
  without children), or exactly one is a non-empty array and the other is unset. Collapsing
  moves the array of \<open>children\<close> to \<open>_children\<close> and clears \<open>children\<close>; expanding moves it
  back and clears \<open>_children\<close>.
\<close>

theorem fields_never_both:
  assumes "dataIsDirty st \<or> refreshNeeded st"
    and "viz_measure rd sn sc dat st = Inr st'" and "hieararchy st' = Some h"
  shows "list_all fields_ok (all_nodes (toggles h ps)) \<and>
         (children d = Some cs \<longrightarrow> toggle_fields d = LNode (ndata d) None (Some cs)) \<and>
         (children d = None \<longrightarrow> toggle_fields d = LNode (ndata d) (collapsedChildren d) None) \<and>
         collapse (LNode a (Some cs) hc) = LNode a None (Some (map collapse cs))"
  using toggles_ok [OF viz_measure_ok [OF assms]]
  by (simp add: toggle_fields_def)

theorem fields_never_both_witness:
  "\<exists>st'. viz_measure Fin example_sn (default_scope (\<lambda>a. Fin (real a)))
            (INode (0::nat) (Some [INode 1 (Some [INode 2 None]), INode 3 None])) new_component = Inr st' \<and>
         hieararchy st' = Some (LNode 0 (Some [LNode 1 None (Some [LNode 2 None None]),
                                              LNode 3 None None]) None) \<and>
         toggles (LNode (0::nat) (Some [LNode 1 None (Some [LNode 2 None None]),
                                  LNode 3 None None]) None) [[0], [1], [0, 0]] =
           LNode 0 (Some [LNode 1 (Some [LNode 2 None None]) None, LNode 3 None None]) None \<and>
         list_all fields_ok
           (all_nodes (LNode (0::nat) (Some [LNode 1 (Some [LNode 2 None None]) None,
                                             LNode 3 None None]) None))"
proof -
  let ?dat = "INode (0::nat) (Some [INode 1 (Some [INode 2 None]), INode 3 None])"
  let ?h = "LNode (0::nat) (Some [LNode 1 None (Some [LNode 2 None None]), LNode 3 None None]) None"
  have dirty: "dataIsDirty (new_component :: nat vstate)"
    by (simp add: new_component_def)
  from viz_measure_dirty [OF dirty, of ?dat "INode 1 (Some [INode 2 None])" "[INode 3 None]"
      Fin example_sn "default_scope (\<lambda>a. Fin (real a))"]
  obtain st' where st': "viz_measure Fin example_sn (default_scope (\<lambda>a. Fin (real a))) ?dat
       new_component = Inr st'" "hieararchy st' = Some ?h"
    by auto
  have t: "toggles ?h [[0], [1], [0, 0]] =
      LNode 0 (Some [LNode 1 (Some [LNode 2 None None]) None, LNode 3 None None]) None"
    by (simp add: toggleNode_def kids_def toggle_fields_def)
  from fields_never_both [OF disjI1 [OF dirty] st', of "[[0], [1], [0, 0]]" ?h "[]" 0 None]
  have "list_all fields_ok (all_nodes (toggles ?h [[0], [1], [0, 0]]))"
    by blast
  with st' t show ?thesis
    by (intro exI [of _ st']) simp
qed





text \<open>
  Claim C7. For a node \<open>d\<close> of the hierarchy that has children, shown or collapsed:
  when \<open>toggleNode(d)\<close> opens it (\<open>children\<close> restored from \<open>_children\<close>), the calls made are
  \<open>updateNode(d, 0)\<close> and then \<open>zoomToNode(d)\<close>; when it closes it (\<open>children\<close> moved to
  \<open>_children\<close>), they are \<open>updateNode(d, 0)\<close> and then \<open>zoomToNode(d.parent)\<close>, the latter only
  when \<open>d\<close> has a parent.
\<close>

theorem toggle_zoom_target:
  assumes "node_at h p = Some d"
  shows "(children d = None \<and> collapsedChildren d \<noteq> None \<longrightarrow>
            (\<exists>h'. toggleNode h p = Some (h', [UpdateNode p (JNum (Fin 0)), ZoomToNode p]) \<and>
                  node_at h' p = Some (toggle_fields d) \<and>
                  children (toggle_fields d) = collapsedChildren d \<and>
                  collapsedChildren (toggle_fields d) = None)) \<and>
         (children d \<noteq> None \<and> p \<noteq> [] \<longrightarrow>
            (\<exists>h' q. toggleNode h p =
                      Some (h', [UpdateNode p (JNum (Fin 0)), ZoomToNode (butlast p)]) \<and>
                  node_at h' p = Some (toggle_fields d) \<and>
                  children (toggle_fields d) = None \<and>
                  collapsedChildren (toggle_fields d) = children d \<and>
                  node_at h (butlast p) = Some q \<and> last p < length (kids q) \<and>
                  kids q ! last p = d)) \<and>
         (children d \<noteq> None \<and> p = [] \<longrightarrow>
            toggleNode h p = Some (toggle_fields h, [UpdateNode p (JNum (Fin 0))]))"
proof (intro conjI impI)
  assume a: "children d = None \<and> collapsedChildren d \<noteq> None"
  then have "children (toggle_fields d) = collapsedChildren d"
    and "collapsedChildren (toggle_fields d) = None"
    by (simp_all add: toggle_fields_def)
  with a assms node_at_modify_at [OF assms, of toggle_fields]
  show "\<exists>h'. toggleNode h p = Some (h', [UpdateNode p (JNum (Fin 0)), ZoomToNode p]) \<and>
                  node_at h' p = Some (toggle_fields d) \<and>
                  children (toggle_fields d) = collapsedChildren d \<and>
                  collapsedChildren (toggle_fields d) = None"
    by (simp add: toggleNode_def)
next
  assume a: "children d \<noteq> None \<and> p \<noteq> []"
  then have "children (toggle_fields d) = None"
    and "collapsedChildren (toggle_fields d) = children d"
    by (auto simp: toggle_fields_def)
  with a assms node_at_modify_at [OF assms, of toggle_fields] node_at_parent [OF assms]
  show "\<exists>h' q. toggleNode h p =
                      Some (h', [UpdateNode p (JNum (Fin 0)), ZoomToNode (butlast p)]) \<and>
                  node_at h' p = Some (toggle_fields d) \<and>
                  children (toggle_fields d) = None \<and>
                  collapsedChildren (toggle_fields d) = children d \<and>
                  node_at h (butlast p) = Some q \<and> last p < length (kids q) \<and>
                  kids q ! last p = d"
    by (auto simp: toggleNode_def)
next
  assume a: "children d \<noteq> None \<and> p = []"
  with assms show "toggleNode h p = Some (toggle_fields h, [UpdateNode p (JNum (Fin 0))])"
    by (simp add: toggleNode_def)
qed

theorem toggle_zoom_target_witness:
  "toggleNode (LNode (0::nat) (Some [LNode 1 None (Some [LNode 2 None None])]) None) [0] =
     Some (LNode 0 (Some [LNode 1 (Some [LNode 2 None None]) None]) None,
           [UpdateNode [0] (JNum (Fin 0)), ZoomToNode [0]]) \<and>
   toggleNode (LNode (0::nat) (Some [LNode 1 (Some [LNode 2 None None]) None]) None) [0] =
     Some (LNode 0 (Some [LNode 1 None (Some [LNode 2 None None])]) None,
           [UpdateNode [0] (JNum (Fin 0)), ZoomToNode []]) \<and>
   toggleNode (LNode (0::nat) (Some [LNode 1 None None]) None) [] =
     Some (LNode 0 None (Some [LNode 1 None None]), [UpdateNode [] (JNum (Fin 0))])"
  using
    toggle_zoom_target [of "LNode (0::nat) (Some [LNode 1 None (Some [LNode 2 None None])]) None"
      "[0]" "LNode 1 None (Some [LNode 2 None None])"]
    toggle_zoom_target [of "LNode (0::nat) (Some [LNode 1 (Some [LNode 2 None None]) None]) None"
      "[0]" "LNode 1 (Some [LNode 2 None None]) None"]
    toggle_zoom_target [of "LNode (0::nat) (Some [LNode 1 None None]) None"
      "[]" "LNode (0::nat) (Some [LNode 1 None None]) None"]
  by (simp add: kids_def toggle_fields_def toggleNode_def)

section \<open>Measurements, node radius and node positions: theorems\<close>

lemma measure_refresh_vsize:
  "measure_refresh dat s = Inr s' \<Longrightarrow> vsize s' = vsize s"
  by (auto simp: measure_refresh_def Let_def split: if_splits option.splits)

lemma fold_fun_upd:
  "fold (\<lambda>i m. m(i := f i)) xs m0 j = (if j \<in> set xs then f j else m0 j)"
  by (induction xs arbitrary: m0) auto

lemma viz_measure_fields:
  assumes "viz_measure rd sn sc dat st0 = Inr st"
  shows "vsize st = util_size rd sn (sc_margin sc) (sc_width sc) (sc_height sc)"
    and "cx st = s_left (vsize st)"
    and "depthSpan st =
          (if jgreater (horizontalPadding sc) (Fin 0) then horizontalPadding sc
           else fdiv rd (s_width (vsize st)) (Fin (real (maxDepth st + 1))))"
    and "fst (nodeScale_range st) = Fin (3 / 2)"
    and "1 \<le> i \<Longrightarrow> i \<le> maxDepth st \<Longrightarrow> maxValues st i = d3_max (depth_values sc (nodes st) i)"
    and "1 \<le> i \<Longrightarrow> i \<le> maxDepth st \<Longrightarrow> minValues st i = d3_min (depth_values sc (nodes st) i)"
proof -
  from assms obtain s1 scale where
    s1: "measure_refresh dat
          (st0 \<lparr> vsize := util_size rd sn (sc_margin sc) (sc_width sc) (sc_height sc) \<rparr>) = Inr s1"
    and st: "st = s1 \<lparr>
                 nodeSize0 :=
                   (if verticalPadding sc = Fin (- 1) then scale else verticalPadding sc),
                 nodeScale_range := (Fin (3 / 2), fdiv rd scale (Fin 2)),
                 depthSpan :=
                   (if jgreater (horizontalPadding sc) (Fin 0) then horizontalPadding sc
                    else fdiv rd (s_width (vsize s1)) (Fin (real (maxDepth s1 + 1)))),
                 maxValues :=
                   fold (\<lambda>i m. m(i := d3_max (depth_values sc (nodes s1) i)))
                     [1 ..< maxDepth s1 + 1] (maxValues s1),
                 minValues :=
                   fold (\<lambda>i m. m(i := d3_min (depth_values sc (nodes s1) i)))
                     [1 ..< maxDepth s1 + 1] (minValues s1),
                 cx := s_left (vsize s1),
                 cy := fadd rd (s_top (vsize s1)) (fdiv rd (s_height (vsize s1)) (Fin 2)) \<rparr>"
    by (auto simp: viz_measure_def split: sum.splits)
  from measure_refresh_vsize [OF s1]
  show "vsize st = util_size rd sn (sc_margin sc) (sc_width sc) (sc_height sc)"
    by (simp add: st)
  show "cx st = s_left (vsize st)" by (simp add: st)
  show "depthSpan st =
          (if jgreater (horizontalPadding sc) (Fin 0) then horizontalPadding sc
           else fdiv rd (s_width (vsize st)) (Fin (real (maxDepth st + 1))))"
    by (simp add: st)
  show "fst (nodeScale_range st) = Fin (3 / 2)" by (simp add: st)
  show "maxValues st i = d3_max (depth_values sc (nodes st) i)" if "1 \<le> i" "i \<le> maxDepth st"
    using that by (simp add: st fold_fun_upd)
  show "minValues st i = d3_min (depth_values sc (nodes st) i)" if "1 \<le> i" "i \<le> maxDepth st"
    using that by (simp add: st fold_fun_upd)
qed

lemma refresh_step_depth:
  "\<exists>mx' mn'. refresh_step n (mx, mn, md) = (mx', mn', max md (fst n))"
  by (cases "fst n = 0") (simp_all add: refresh_step_def)

lemma fold_refresh_step_depth:
  "snd (snd (fold refresh_step ns (mx, mn, md))) = fold (\<lambda>n m. max m (fst n)) ns md"
proof (induction ns arbitrary: mx mn md)
  case Nil
  then show ?case by simp
next
  case (Cons n ns)
  from refresh_step_depth [of n mx mn md] obtain mx' mn' where
    "refresh_step n (mx, mn, md) = (mx', mn', max md (fst n))" by blast
  then show ?case by (simp add: Cons)
qed

lemma maxDepth_refreshData:
  "maxDepth (refreshData dat st) = fold (\<lambda>n m. max m (fst n)) (node_depths 0 (hierarchy dat)) 0"
proof -
  obtain mx mn md where
    f: "fold refresh_step (node_depths 0 (hierarchy dat)) (maxValues st, minValues st, 0) = (mx, mn, md)"
    by (cases "fold refresh_step (node_depths 0 (hierarchy dat)) (maxValues st, minValues st, 0)")
  with fold_refresh_step_depth [of "node_depths 0 (hierarchy dat)" "maxValues st" "minValues st" 0]
  show ?thesis by (simp add: refreshData_def Let_def)
qed



lemma refreshData_other [simp]:
  "nodeScale_range (refreshData dat st) = nodeScale_range st"
  by (simp add: refreshData_def Let_def split: prod.splits)

lemma viz_measure_refreshed:
  assumes "dataIsDirty st0 \<or> refreshNeeded st0" and "viz_measure rd sn sc dat st0 = Inr st"
  shows "nodes st = node_depths 0 (hierarchy dat)"
    and "maxDepth st = fold (\<lambda>n m. max m (fst n)) (node_depths 0 (hierarchy dat)) 0"
proof -
  let ?s = "st0 \<lparr> vsize := util_size rd sn (sc_margin sc) (sc_width sc) (sc_height sc) \<rparr>"
  from assms(2) obtain s1 where
    s1: "measure_refresh dat ?s = Inr s1" and n: "nodes st = nodes s1" "maxDepth st = maxDepth s1"
    by (auto simp: viz_measure_def split: sum.splits)
  from s1 assms(1) have "nodes s1 = nodes (refreshData dat ?s)"
    and "maxDepth s1 = maxDepth (refreshData dat ?s)"
    by (auto simp: measure_refresh_def Let_def split: if_splits option.splits)
  with n show "nodes st = node_depths 0 (hierarchy dat)"
    and "maxDepth st = fold (\<lambda>n m. max m (fst n)) (node_depths 0 (hierarchy dat)) 0"
    by (simp_all add: maxDepth_refreshData)
qed










lemma example_size:
  "util_size Fin example_sn (sc_margin (default_scope v)) (sc_width (default_scope v))
     (sc_height (default_scope v)) =
   \<lparr> s_width = Fin 510, s_height = Fin 540, s_top = Fin 30, s_left = Fin 48, s_bottom = Fin 30,
     s_right = Fin 42 \<rparr>"
  by (simp add: default_scope_def util_size_def util_measure_def example_sn_def jsub_def
      Math_min_def isNaN_def)





text \<open>
  Claim C8. After \<open>updateTreeSize\<close>, the \<open>y\<close> of every node handed to it is
  \<open>depth * depthSpan + size.left\<close>, where \<open>depthSpan\<close> is \<open>scope.horizontalPadding\<close> when
  that is greater than 0 and \<open>size.width / (maxDepth + 1)\<close> otherwise, \<open>size\<close> being
  what \<open>util.size\<close> gives for the component's margin, width and height; the depth and the
  datum of the nodes are unchanged.
\<close>

theorem node_y_normalised:
  assumes "viz_measure rd sn sc dat st0 = Inr st"
  shows "map py (fst (updateTreeSize rd t0 sc st k ns)) =
           map (\<lambda>d. fadd rd (fmul rd (Fin (real (pdepth d)))
                      (if jgreater (horizontalPadding sc) (Fin 0) then horizontalPadding sc
                       else fdiv rd (s_width (util_size rd sn (sc_margin sc) (sc_width sc) (sc_height sc)))
                              (Fin (real (maxDepth st + 1)))))
                   (s_left (util_size rd sn (sc_margin sc) (sc_width sc) (sc_height sc)))) ns \<and>
         map pdepth (fst (updateTreeSize rd t0 sc st k ns)) = map pdepth ns \<and>
         map pdata (fst (updateTreeSize rd t0 sc st k ns)) = map pdata ns"
  using viz_measure_fields(1-3) [OF assms]
  by (simp add: updateTreeSize_def Let_def comp_def)

theorem node_y_normalised_witness:
  "\<exists>st. viz_measure Fin example_sn (default_scope (\<lambda>a. Fin (real a)))
           (INode (0::nat) (Some [INode 1 (Some [INode 2 None]), INode 3 None])) new_component = Inr st \<and>
        map py (fst (updateTreeSize Fin 0 (default_scope (\<lambda>a. Fin (real a))) st (Fin 1)
          [\<lparr> pdepth = 0, pdata = Some 0, px = Fin 0, py = Fin 0, pr = Fin 0 \<rparr>,
           \<lparr> pdepth = 1, pdata = Some 1, px = Fin 10, py = Fin 20, pr = Fin 0 \<rparr>,
           \<lparr> pdepth = 2, pdata = Some 2, px = Fin 10, py = Fin 40, pr = Fin 0 \<rparr>])) =
          [Fin 48, Fin 218, Fin 388]"
proof -
  let ?dat = "INode (0::nat) (Some [INode 1 (Some [INode 2 None]), INode 3 None])"
  let ?sc = "default_scope (\<lambda>a. Fin (real (a::nat)))"
  have dirty: "dataIsDirty (new_component :: nat vstate)"
    by (simp add: new_component_def)
  from viz_measure_dirty [OF dirty, of ?dat "INode 1 (Some [INode 2 None])" "[INode 3 None]"
      Fin example_sn ?sc]
  obtain st where st: "viz_measure Fin example_sn ?sc ?dat new_component = Inr st"
    by auto
  have md: "maxDepth st = 2"
    using viz_measure_refreshed(2) [OF disjI1 [OF dirty] st] by simp
  have hp: "horizontalPadding ?sc = Fin (- 1)" by (simp add: default_scope_def)
  from node_y_normalised [OF st, of 0 "Fin 1"
      "[\<lparr> pdepth = 0, pdata = Some 0, px = Fin 0, py = Fin 0, pr = Fin 0 \<rparr>,
        \<lparr> pdepth = 1, pdata = Some 1, px = Fin 10, py = Fin 20, pr = Fin 0 \<rparr>,
        \<lparr> pdepth = 2, pdata = Some 2, px = Fin 10, py = Fin 40, pr = Fin 0 \<rparr>]"] st
  show ?thesis
    by (intro exI [of _ st]) (simp add: md example_size hp jgreater_def)
qed

section \<open>aggregateNest: theorems\<close>

lemma get_put: "get (put f k v) k' = (if k' = k then v else get f k')"
  by (induction f) (auto simp: get_def)

lemma agg_key_inj [simp]: "(agg_key p = agg_key q) = (p = q)"
  by (simp add: agg_key_def)

lemma agg_key_not_childProp [simp]: "agg_key p \<noteq> childProp_key q"
  by (simp add: agg_key_def childProp_key_def)

lemma leaf_step_get:
  "get (leaf_step sn q f) k =
     (if k = agg_key q
      then JNum (if isNaN (Number sn (get f q)) then Fin 0 else Number sn (get f q))
      else get f k)"
  by (simp add: leaf_step_def Let_def js_isNaN_def get_put)

lemma fold_leaf_get_other:
  "\<forall>q\<in>set ps. k \<noteq> agg_key q \<Longrightarrow> get (fold (leaf_step sn) ps f) k = get f k"
  by (induction ps arbitrary: f) (simp_all add: leaf_step_get)

lemma fold_leaf_get:
  "p \<in> set ps \<Longrightarrow> \<forall>q\<in>set ps. p \<noteq> agg_key q \<Longrightarrow>
     get (fold (leaf_step sn) ps f) (agg_key p) =
       JNum (if isNaN (Number sn (get f p)) then Fin 0 else Number sn (get f p))"
proof (induction ps arbitrary: f)
  case Nil
  then show ?case by simp
next
  case (Cons q ps)
  have same: "get (leaf_step sn q f) p = get f p"
    using Cons.prems(2) by (simp add: leaf_step_get)
  show ?case
  proof (cases "p \<in> set ps")
    case True
    with Cons.IH [of "leaf_step sn q f"] Cons.prems(2) same show ?thesis by simp
  next
    case False
    with Cons.prems(1) have q: "q = p" by simp
    from False have "\<forall>r\<in>set ps. agg_key p \<noteq> agg_key r" by auto
    from fold_leaf_get_other [OF this, of sn "leaf_step sn q f"] q show ?thesis
      by (simp add: leaf_step_get)
  qed
qed

lemma group_step_get:
  "get (group_step sn calc cf q f) k =
     (if k = agg_key q then combine_step sn calc (get f (agg_key q)) (get cf (agg_key q))
      else get f k)"
  by (simp add: group_step_def Let_def combine_step_def get_put)

lemma fold_group_get:
  "distinct ps \<Longrightarrow>
     get (fold (group_step sn calc cf) ps f) (agg_key p) =
       (if p \<in> set ps then combine_step sn calc (get f (agg_key p)) (get cf (agg_key p))
        else get f (agg_key p))"
  by (induction ps arbitrary: f) (auto simp: group_step_get)

lemma fold_children_get:
  "distinct ps \<Longrightarrow> p \<in> set ps \<Longrightarrow>
     get (fold (\<lambda>child g. fold (group_step sn calc (props child)) ps g) vs f) (agg_key p) =
       foldl (combine_step sn calc) (get f (agg_key p)) (map (\<lambda>c. get (props c) (agg_key p)) vs)"
  by (induction vs arbitrary: f) (simp_all add: fold_group_get)

lemma sourceField_step_get:
  "k \<noteq> childProp_key cp \<Longrightarrow>
     get (fst (sourceField_step cp (c, pf))) k = get c k \<and>
     get (snd (sourceField_step cp (c, pf))) k = get pf k"
  by (simp add: sourceField_step_def Let_def get_put)

lemma fold_sourceField_get:
  "\<forall>cp\<in>set cps. k \<noteq> childProp_key cp \<Longrightarrow>
     get (fst (fold sourceField_step cps (c, pf))) k = get c k \<and>
     get (snd (fold sourceField_step cps (c, pf))) k = get pf k"
proof (induction cps arbitrary: c pf)
  case Nil
  then show ?case by simp
next
  case (Cons cp cps)
  obtain c1 pf1 where s: "sourceField_step cp (c, pf) = (c1, pf1)"
    by (cases "sourceField_step cp (c, pf)")
  with sourceField_step_get [of k cp c pf] Cons.prems
  have "get c1 k = get c k" "get pf1 k = get pf k" by simp_all
  with Cons.IH [of c1 pf1] Cons.prems s show ?case by simp
qed

lemma setSourceFields_agg:
  assumes "setSourceFields cps child parent = (child', parent')"
  shows "get (props child') (agg_key p) = get (props child) (agg_key p)"
    and "vals child' = vals child"
    and "parent = None \<Longrightarrow> parent' = None \<and> child' = child"
    and "parent = Some pf \<Longrightarrow> \<exists>pf'. parent' = Some pf' \<and> get pf' (agg_key p) = get pf (agg_key p)"
proof -
  have k: "\<forall>cp\<in>set cps. agg_key p \<noteq> childProp_key cp" by simp
  show none: "parent = None \<Longrightarrow> parent' = None \<and> child' = child"
    using assms by (auto simp: setSourceFields_def)
  have some: "child' = NNode (fst (fold sourceField_step cps (props child, g))) (vals child) \<and>
      parent' = Some (snd (fold sourceField_step cps (props child, g)))" if "parent = Some g" for g
    using assms that by (auto simp: setSourceFields_def split: prod.splits)
  show "get (props child') (agg_key p) = get (props child) (agg_key p)"
  proof (cases parent)
    case None
    with none show ?thesis by simp
  next
    case (Some g)
    with some [OF Some] fold_sourceField_get [OF k, of "props child" g] show ?thesis by simp
  qed
  show "vals child' = vals child"
  proof (cases parent)
    case None
    with none show ?thesis by simp
  next
    case (Some g)
    with some [OF Some] show ?thesis by simp
  qed
  show "\<exists>pf'. parent' = Some pf' \<and> get pf' (agg_key p) = get pf (agg_key p)" if "parent = Some pf"
    using some [OF that] fold_sourceField_get [OF k, of "props child" pf] by simp
qed

lemma aggregateNodes_agg:
  "aggregateNodes sn ps calc cps vs (Some pf) = (vs', parent') \<Longrightarrow>
     map (\<lambda>c. get (props c) (agg_key p)) vs' =
       map (\<lambda>c. get (props (aggregateNode sn ps calc cps c)) (agg_key p)) vs \<and>
     map vals vs' = map (\<lambda>c. vals (aggregateNode sn ps calc cps c)) vs \<and>
     (\<exists>pf'. parent' = Some pf' \<and> get pf' (agg_key p) = get pf (agg_key p))"
proof (induction vs arbitrary: pf vs' parent')
  case Nil
  then show ?case by auto
next
  case (Cons v vs)
  obtain v1 par1 where s: "setSourceFields cps (aggregateNode sn ps calc cps v) (Some pf) = (v1, par1)"
    by (cases "setSourceFields cps (aggregateNode sn ps calc cps v) (Some pf)")
  from setSourceFields_agg(1) [OF s, of p] setSourceFields_agg(2) [OF s]
    setSourceFields_agg(4) [OF s, of pf p] obtain pf1 where
    v1: "get (props v1) (agg_key p) = get (props (aggregateNode sn ps calc cps v)) (agg_key p)"
      "vals v1 = vals (aggregateNode sn ps calc cps v)"
    and pf1: "par1 = Some pf1" "get pf1 (agg_key p) = get pf (agg_key p)"
    by auto
  obtain vs1 par2 where r: "aggregateNodes sn ps calc cps vs (Some pf1) = (vs1, par2)"
    by (cases "aggregateNodes sn ps calc cps vs (Some pf1)")
  from Cons.IH [OF r] Cons.prems s r v1 pf1 show ?case by auto
qed

lemma aggregateNodes_top:
  "aggregateNodes sn ps calc cps vs None = (map (aggregateNode sn ps calc cps) vs, None)"
  by (induction vs) (simp_all add: setSourceFields_def)

lemma aggregateNode_group:
  assumes "distinct ps" and "p \<in> set ps"
  shows "get (props (aggregateNode sn ps calc cps (NNode f (Some vs)))) (agg_key p) =
           foldl (combine_step sn calc) (get f (agg_key p))
             (map (\<lambda>c. get (props (aggregateNode sn ps calc cps c)) (agg_key p)) vs)"
    and "map (\<lambda>c. get (props c) (agg_key p))
           (case vals (aggregateNode sn ps calc cps (NNode f (Some vs))) of
              None \<Rightarrow> [] | Some vs' \<Rightarrow> vs') =
         map (\<lambda>c. get (props (aggregateNode sn ps calc cps c)) (agg_key p)) vs"
    and "map vals
           (case vals (aggregateNode sn ps calc cps (NNode f (Some vs))) of
              None \<Rightarrow> [] | Some vs' \<Rightarrow> vs') =
         map (\<lambda>c. vals (aggregateNode sn ps calc cps c)) vs"
proof -
  obtain vs' par where r: "aggregateNodes sn ps calc cps vs (Some f) = (vs', par)"
    by (cases "aggregateNodes sn ps calc cps vs (Some f)")
  from aggregateNodes_agg [OF r, of p] obtain f' where
    m: "map (\<lambda>c. get (props c) (agg_key p)) vs' =
          map (\<lambda>c. get (props (aggregateNode sn ps calc cps c)) (agg_key p)) vs"
    and mv: "map vals vs' = map (\<lambda>c. vals (aggregateNode sn ps calc cps c)) vs"
    and f': "par = Some f'" "get f' (agg_key p) = get f (agg_key p)"
    by auto
  show "get (props (aggregateNode sn ps calc cps (NNode f (Some vs)))) (agg_key p) =
           foldl (combine_step sn calc) (get f (agg_key p))
             (map (\<lambda>c. get (props (aggregateNode sn ps calc cps c)) (agg_key p)) vs)"
    using r m f' fold_children_get [OF assms, of sn calc vs' f'] by simp
  show "map (\<lambda>c. get (props c) (agg_key p))
           (case vals (aggregateNode sn ps calc cps (NNode f (Some vs))) of
              None \<Rightarrow> [] | Some vs' \<Rightarrow> vs') =
         map (\<lambda>c. get (props (aggregateNode sn ps calc cps c)) (agg_key p)) vs"
    using r m by simp
  show "map vals
           (case vals (aggregateNode sn ps calc cps (NNode f (Some vs))) of
              None \<Rightarrow> [] | Some vs' \<Rightarrow> vs') =
         map (\<lambda>c. vals (aggregateNode sn ps calc cps c)) vs"
    using r mv by simp
qed

lemma combine_seed:
  "js_isNaN sn a \<Longrightarrow>
     foldl (combine_step sn calc) a (v # ws) = foldl (combine_step sn calc) (JNum (Fin 0)) (v # ws)"
  by (simp add: combine_step_def js_isNaN_def isNaN_def)

lemma combine_plain:
  assumes "\<forall>a b. \<not> js_isNaN sn (calc a b)"
  shows "\<not> js_isNaN sn a \<Longrightarrow> foldl (combine_step sn calc) a ws = foldl calc a ws"
proof (induction ws arbitrary: a)
  case Nil
  then show ?case by simp
next
  case (Cons w ws)
  have "combine_step sn calc a w = calc a w"
    using Cons.prems by (simp add: combine_step_def)
  with Cons.IH [of "calc a w"] assms show ?case by simp
qed

lemmas agg_eval =
  aggregateNest_def setSourceFields_def sourceField_step_def leaf_step_def group_step_def
  get_def js_isNaN_def isNaN_def agg_key_def childProp_key_def Let_def

lemma example_aggregates:
  "\<exists>r a b. aggregateNest sn example_nest [''x''] (calc_sum sn) = Inr [r] \<and>
            vals r = Some [a, b] \<and>
            get (props r) (agg_key ''x'') = JNum (Fin 15) \<and>
            get (props a) (agg_key ''x'') = JNum (Fin 6) \<and>
            get (props b) (agg_key ''x'') = JNum (Fin 9)"
  by (simp add: example_nest_def calc_sum_def agg_eval)

text \<open>
  Claim C4 fails as stated: with a \<open>calculation\<close> that yields not-a-number for a negative
  term, a group whose records carry \<open>x\<close> = -1 and 5 gets \<open>agg_x\<close> = 5, while
  \<open>calculation\<close> folded over the children's \<open>agg_x\<close> from 0 is not-a-number: the loop
  replaces an accumulator that is not a number by 0 before every step.
\<close>

theorem aggregate_reset_counterexample:
  "\<exists>g c1 c2.
     aggregateNest example_sn
       [NNode [(''key'', JStr ''g'')]
          (Some [NNode [(''x'', JNum (Fin (- 1)))] None, NNode [(''x'', JNum (Fin 5))] None])]
       [''x''] (calc_sum_nonneg example_sn) = Inr [g] \<and>
     vals g = Some [c1, c2] \<and>
     get (props c1) (agg_key ''x'') = JNum (Fin (- 1)) \<and>
     get (props c2) (agg_key ''x'') = JNum (Fin 5) \<and>
     get (props g) (agg_key ''x'') = JNum (Fin 5) \<and>
     foldl (calc_sum_nonneg example_sn) (JNum (Fin 0))
       [get (props c1) (agg_key ''x''), get (props c2) (agg_key ''x'')] = JNum NaN"
  by (simp add: calc_sum_nonneg_def agg_eval)

text \<open>
  Claim C4, amended. For a list of properties without repetition and a property \<open>p\<close> of
  it that is not itself \<open>'agg_' + q\<close> for a property \<open>q\<close> of the list: a record (a node
  without \<open>values\<close>) gets \<open>agg_p = Number(record[p])\<close>, 0 when that is not-a-number; a group
  gets \<open>agg_p\<close> equal to the fold, left to right over its children's \<open>agg_p\<close>, of
  \<open>calculation\<close> applied to the accumulator with a not-a-number accumulator replaced by 0,
  starting from the group's own earlier \<open>agg_p\<close>; for a group with a child and without a
  numeric \<open>agg_p\<close> of its own that is the fold seeded at 0, and for a \<open>calculation\<close> that
  never yields not-a-number it is the plain fold of \<open>calculation\<close> seeded at 0. The nest
  returned holds each top node so treated. With the sum as \<open>calculation\<close> on the nest of
  two levels with the records 1, 2, 3 and 4, 5, the two groups get 6 and 9 and the outer
  group 15.
\<close>

theorem aggregate_fold:
  assumes "distinct properties" and "p \<in> set properties"
    and "\<forall>q\<in>set properties. p \<noteq> agg_key q"
  shows
    "get (props (aggregateNode sn properties calc cps (NNode f None))) (agg_key p) =
       JNum (if isNaN (Number sn (get f p)) then Fin 0 else Number sn (get f p)) \<and>
     get (props (aggregateNode sn properties calc cps (NNode f (Some vs)))) (agg_key p) =
       foldl (combine_step sn calc) (get f (agg_key p))
         (map (\<lambda>c. get (props (aggregateNode sn properties calc cps c)) (agg_key p)) vs) \<and>
     map (\<lambda>c. get (props c) (agg_key p))
       (case vals (aggregateNode sn properties calc cps (NNode f (Some vs))) of
          None \<Rightarrow> [] | Some vs' \<Rightarrow> vs') =
       map (\<lambda>c. get (props (aggregateNode sn properties calc cps c)) (agg_key p)) vs \<and>
     map vals
       (case vals (aggregateNode sn properties calc cps (NNode f (Some vs))) of
          None \<Rightarrow> [] | Some vs' \<Rightarrow> vs') =
       map (\<lambda>c. vals (aggregateNode sn properties calc cps c)) vs \<and>
     (js_isNaN sn (get f (agg_key p)) \<longrightarrow>
        foldl (combine_step sn calc) (get f (agg_key p)) (v # ws) =
          foldl (combine_step sn calc) (JNum (Fin 0)) (v # ws)) \<and>
     ((\<forall>a b. \<not> js_isNaN sn (calc a b)) \<longrightarrow>
        foldl (combine_step sn calc) (JNum (Fin 0)) ws = foldl calc (JNum (Fin 0)) ws) \<and>
     (deepest n = Inr leaf \<longrightarrow>
        aggregateNest sn (n # ns) properties calc =
          Inr (map (aggregateNode sn properties calc (map fst leaf)) (n # ns))) \<and>
     (\<exists>r a b. aggregateNest sn example_nest [''x''] (calc_sum sn) = Inr [r] \<and>
              vals r = Some [a, b] \<and>
              get (props r) (agg_key ''x'') = JNum (Fin 15) \<and>
              get (props a) (agg_key ''x'') = JNum (Fin 6) \<and>
              get (props b) (agg_key ''x'') = JNum (Fin 9))"
proof (intro conjI impI)
  show "get (props (aggregateNode sn properties calc cps (NNode f None))) (agg_key p) =
       JNum (if isNaN (Number sn (get f p)) then Fin 0 else Number sn (get f p))"
    using fold_leaf_get [OF assms(2,3)] by simp
  show "get (props (aggregateNode sn properties calc cps (NNode f (Some vs)))) (agg_key p) =
       foldl (combine_step sn calc) (get f (agg_key p))
         (map (\<lambda>c. get (props (aggregateNode sn properties calc cps c)) (agg_key p)) vs)"
    by (rule aggregateNode_group(1) [OF assms(1,2)])
  show "map (\<lambda>c. get (props c) (agg_key p))
       (case vals (aggregateNode sn properties calc cps (NNode f (Some vs))) of
          None \<Rightarrow> [] | Some vs' \<Rightarrow> vs') =
       map (\<lambda>c. get (props (aggregateNode sn properties calc cps c)) (agg_key p)) vs"
    by (rule aggregateNode_group(2) [OF assms(1,2)])
  show "map vals
       (case vals (aggregateNode sn properties calc cps (NNode f (Some vs))) of
          None \<Rightarrow> [] | Some vs' \<Rightarrow> vs') =
       map (\<lambda>c. vals (aggregateNode sn properties calc cps c)) vs"
    by (rule aggregateNode_group(3) [OF assms(1,2)])
  show "foldl (combine_step sn calc) (get f (agg_key p)) (v # ws) =
          foldl (combine_step sn calc) (JNum (Fin 0)) (v # ws)"
    if "js_isNaN sn (get f (agg_key p))"
    using that by (rule combine_seed)
  show "foldl (combine_step sn calc) (JNum (Fin 0)) ws = foldl calc (JNum (Fin 0)) ws"
    if "\<forall>a b. \<not> js_isNaN sn (calc a b)"
    using that by (rule combine_plain) (simp add: js_isNaN_def isNaN_def)
  show "aggregateNest sn (n # ns) properties calc =
          Inr (map (aggregateNode sn properties calc (map fst leaf)) (n # ns))"
    if "deepest n = Inr leaf"
    using that by (simp add: aggregateNest_def aggregateNodes_top del: aggregateNodes.simps)
  show "\<exists>r a b. aggregateNest sn example_nest [''x''] (calc_sum sn) = Inr [r] \<and>
              vals r = Some [a, b] \<and>
              get (props r) (agg_key ''x'') = JNum (Fin 15) \<and>
              get (props a) (agg_key ''x'') = JNum (Fin 6) \<and>
              get (props b) (agg_key ''x'') = JNum (Fin 9)"
    by (rule example_aggregates)
qed

theorem aggregate_fold_witness:
  "distinct [''x''] \<and>
   get (props (aggregateNode example_sn [''x''] (calc_sum example_sn) [''x'']
                 (NNode [(''x'', JStr ''10'')] None))) (agg_key ''x'') = JNum (Fin 10) \<and>
   get (props (aggregateNode example_sn [''x''] (calc_sum example_sn) [''x'']
                 (NNode [(''x'', JStr ''ten'')] None))) (agg_key ''x'') = JNum (Fin 0) \<and>
   get (props (aggregateNode example_sn [''x''] (calc_sum example_sn) [''x'']
                 (NNode [(''key'', JStr ''b'')]
                    (Some [NNode [(''x'', JNum (Fin 4))] None,
                           NNode [(''x'', JNum (Fin 5))] None])))) (agg_key ''x'') =
     foldl (calc_sum example_sn) (JNum (Fin 0)) [JNum (Fin 4), JNum (Fin 5)] \<and>
   foldl (calc_sum example_sn) (JNum (Fin 0)) [JNum (Fin 4), JNum (Fin 5)] = JNum (Fin 9)"
proof -
  have h: "distinct [''x'']" "''x'' \<in> set [''x'']" "\<forall>q\<in>set [''x'']. ''x'' \<noteq> agg_key q"
    by (simp_all add: agg_key_def)
  note t = aggregate_fold [OF h, of example_sn "calc_sum example_sn" "[''x'']"]
  from t [of "[(''x'', JStr ''10'')]" "[]" JUndef "[]" "NNode [] None" "[]" "[]"]
  have 1: "get (props (aggregateNode example_sn [''x''] (calc_sum example_sn) [''x'']
                 (NNode [(''x'', JStr ''10'')] None))) (agg_key ''x'') = JNum (Fin 10)"
    by (simp add: get_def example_sn_def isNaN_def)
  from t [of "[(''x'', JStr ''ten'')]" "[]" JUndef "[]" "NNode [] None" "[]" "[]"]
  have 2: "get (props (aggregateNode example_sn [''x''] (calc_sum example_sn) [''x'']
                 (NNode [(''x'', JStr ''ten'')] None))) (agg_key ''x'') = JNum (Fin 0)"
    by (simp add: get_def example_sn_def isNaN_def)
  from t [of "[(''key'', JStr ''b'')]"
      "[NNode [(''x'', JNum (Fin 4))] None, NNode [(''x'', JNum (Fin 5))] None]"
      JUndef "[]" "NNode [] None" "[]" "[]"]
  have 3: "get (props (aggregateNode example_sn [''x''] (calc_sum example_sn) [''x'']
                 (NNode [(''key'', JStr ''b'')]
                    (Some [NNode [(''x'', JNum (Fin 4))] None,
                           NNode [(''x'', JNum (Fin 5))] None])))) (agg_key ''x'') =
     foldl (calc_sum example_sn) (JNum (Fin 0)) [JNum (Fin 4), JNum (Fin 5)]"
    by (simp add: calc_sum_def agg_eval combine_step_def)
  have 4: "foldl (calc_sum example_sn) (JNum (Fin 0)) [JNum (Fin 4), JNum (Fin 5)] = JNum (Fin 9)"
    by (simp add: calc_sum_def)
  from 1 2 3 4 show ?thesis by simp
qed

section \<open>endUpdate: theorems\<close>

lemma endUpdate_count: "latch_n (endUpdate batch) = int (length batch)"
proof -
  have "fold (\<lambda>e k. k + 1) xs (k0 :: int) = k0 + int (length xs)" for xs :: "'a list" and k0
    by (induction xs arbitrary: k0) simp_all
  then show ?thesis by (simp add: endUpdate_def)
qed

lemma endUpdate_fired: "fired (endUpdate batch) = 0"
  by (simp add: endUpdate_def)

text \<open>
  The latch after the events of a batch, in the order they arrive: only the \<open>end\<close> events
  count down, and the callback is called when the count passes from 1 to 0.
\<close>

lemma on_event_run:
  "latch_n (fold on_event evs l) = latch_n l - int (length (filter (\<lambda>e. e = End) evs)) \<and>
   fired (fold on_event evs l) =
     fired l +
       (if 1 \<le> latch_n l \<and> latch_n l \<le> int (length (filter (\<lambda>e. e = End) evs)) then 1 else 0)"
proof (induction evs arbitrary: l)
  case Nil
  then show ?case by simp
next
  case (Cons e evs)
  show ?case
  proof (cases e)
    case End
    with Cons [of "on_end l"] show ?thesis
      by (auto simp: on_end_def Let_def)
  next
    case Interrupt
    with Cons [of l] show ?thesis by simp
  qed
qed

text \<open>
  Claim C9 fails as stated: of a batch of two transitions, one runs to its end and the other
  is interrupted. Both are over, the count stands at 1, and the callback has not been
  called; no further event of the batch will come.
\<close>

theorem interrupted_never_settles:
  "fired (fold on_event [End, Interrupt] (endUpdate [10, 20 :: nat])) = 0 \<and>
   latch_n (fold on_event [End, Interrupt] (endUpdate [10, 20 :: nat])) = 1 \<and>
   fired (fold on_event [Interrupt, End] (endUpdate [10, 20 :: nat])) = 0"
  by (simp add: endUpdate_def on_end_def)

text \<open>
  Claim C9, amended. For a batch of at least one node-update transition, \<open>endUpdate\<close>
  counts one for every transition of the batch and one down for every \<open>end\<close> event, and
  calls the callback when the count reaches zero: after any events of the batch the
  callback has been called once if as many \<open>end\<close> events have arrived as the batch has
  transitions, and never otherwise. So when every transition of the batch runs to its end,
  the callback is called exactly once, with the last \<open>end\<close> and not before; and when a
  transition of the batch is interrupted instead (each transition giving at most one
  event), the callback is never called for that batch.
\<close>

theorem settled_when_all_end:
  assumes "batch \<noteq> []"
  shows "latch_n (endUpdate batch) = int (length batch) \<and>
         fired (endUpdate batch) = 0 \<and>
         latch_n (fold on_event evs (endUpdate batch)) =
           int (length batch) - int (length (filter (\<lambda>e. e = End) evs)) \<and>
         fired (fold on_event evs (endUpdate batch)) =
           (if length batch \<le> length (filter (\<lambda>e. e = End) evs) then 1 else 0) \<and>
         fired (fold on_event (replicate (length batch) End) (endUpdate batch)) = 1 \<and>
         (j < length batch \<longrightarrow>
            fired (fold on_event (replicate j End) (endUpdate batch)) = 0) \<and>
         (length evs \<le> length batch \<longrightarrow> Interrupt \<in> set evs \<longrightarrow>
            fired (fold on_event evs (endUpdate batch)) = 0)"
proof -
  have n: "1 \<le> latch_n (endUpdate batch)"
    using assms by (cases batch) (simp_all add: endUpdate_count)
  have run: "fired (fold on_event es (endUpdate batch)) =
      (if length batch \<le> length (filter (\<lambda>e. e = End) es) then 1 else 0)" for es
    using on_event_run [of es "endUpdate batch"] n
    by (simp add: endUpdate_count endUpdate_fired)
  have cnt: "latch_n (fold on_event evs (endUpdate batch)) =
      int (length batch) - int (length (filter (\<lambda>e. e = End) evs))"
    using on_event_run [of evs "endUpdate batch"] by (simp add: endUpdate_count)
  have all: "fired (fold on_event (replicate (length batch) End) (endUpdate batch)) = 1"
    using run [of "replicate (length batch) End"] by simp
  have before: "fired (fold on_event (replicate j End) (endUpdate batch)) = 0"
    if "j < length batch"
    using that run [of "replicate j End"] by simp
  have intr: "fired (fold on_event evs (endUpdate batch)) = 0"
    if "length evs \<le> length batch" "Interrupt \<in> set evs"
  proof -
    from that(2) have "length (filter (\<lambda>e. e = End) evs) < length evs"
      by (intro length_filter_less [of Interrupt]) simp_all
    with that(1) show ?thesis by (simp add: run)
  qed
  from cnt run [of evs] all before intr show ?thesis
    by (simp add: endUpdate_count endUpdate_fired)
qed

theorem settled_when_all_end_witness:
  "[10, 20, 30 :: nat] \<noteq> [] \<and>
   fired (endUpdate [10, 20, 30 :: nat]) = 0 \<and>
   fired (fold on_event [End] (endUpdate [10, 20, 30 :: nat])) = 0 \<and>
   fired (fold on_event [End, End] (endUpdate [10, 20, 30 :: nat])) = 0 \<and>
   fired (fold on_event [End, End, End] (endUpdate [10, 20, 30 :: nat])) = 1 \<and>
   fired (fold on_event [End, Interrupt, End] (endUpdate [10, 20, 30 :: nat])) = 0"
  using settled_when_all_end [of "[10, 20, 30 :: nat]" "[End]" 0]
    settled_when_all_end [of "[10, 20, 30 :: nat]" "[End, End]" 1]
    settled_when_all_end [of "[10, 20, 30 :: nat]" "[End, End, End]" 2]
    settled_when_all_end [of "[10, 20, 30 :: nat]" "[End, Interrupt, End]" 2]
  by simp

end
